theory Spec2Isabelle
  imports Main "HOL-Library.Char_ord" "HOL-Library.List_Lexorder"
begin

section \<open>Data model\<close>

text \<open>
  Times are nanoseconds since the Unix epoch and strings are byte lists. Go's \<open>int\<close>
  and \<open>time.Duration\<close> are 64 bits wide on every released target; the fields hold
  the integer, and the one operation that can leave the range, the conversion of seconds
  to a duration, wraps around below. The field \<open>Name\<close> of a protected path is
  \<open>Label\<close> here and the field \<open>PID\<close> of an agent is \<open>ProcessID\<close>, the lock and
  the agent having these names already.
\<close>

record Lock =
  Resource :: string
  AgentID :: string
  AgentName :: string
  Operation :: string
  AcquiredAt :: int
  TTLSeconds :: int
  PID :: int

record Agent =
  ID :: string
  Name :: string
  StartedAt :: int
  LastHeartbeat :: int
  CurrentTask :: string
  LocksHeld :: "string list"
  ProcessID :: int

record ProtectedPath =
  Pattern :: string
  Label :: string
  Description :: string

record Settings =
  DefaultTTL :: int
  StaleThreshold :: int
  HeartbeatInterval :: int

record Config =
  Protected :: "ProtectedPath list"
  Settings :: Settings

text \<open>The manager of either package: the directory it was made for and the configuration.\<close>

record Manager =
  coordDir :: string
  cfg :: Config

definition DefaultCoordDir :: string where
  "DefaultCoordDir = ''.claude-coord''"

definition LocksDir :: string where
  "LocksDir = ''locks''"

definition AgentsDir :: string where
  "AgentsDir = ''agents''"

definition NewManager :: "string \<Rightarrow> Config \<Rightarrow> Manager" where
  "NewManager dir c =
     \<lparr>coordDir = (if dir = [] then DefaultCoordDir else dir), cfg = c\<rparr>"

text \<open>
  What \<open>os.ReadFile\<close> followed by \<open>json.Unmarshal\<close> makes of an existing directory
  entry: a record, or nothing usable (a directory, or bytes that do not parse, such as
  the empty file that exists between the exclusive create and the write in \<open>Acquire\<close>).
\<close>

datatype 'a content = Parsed 'a | Corrupt

text \<open>
  The file system and the clock. \<open>locks\<close> holds the entries of the directory
  \<open>locks\<close> below the coordination directory, by file name, in the order
  \<open>os.ReadDir\<close> returns them (sorted by file name). \<open>agents\<close> maps the path of any
  other file, as \<open>filepath.Join\<close> hands it to the system, to the file's content and
  modification time; different cleaned paths are taken to name different files (no
  symbolic links, and the coordination directory is not reached a second way through
  the directories above it). \<open>clock\<close> is what \<open>time.Now()\<close> returns. Storage calls
  fail only for the reasons the store and the name show: a missing file, an existing
  file, content that does not parse, a name the system refuses.
\<close>

record World =
  locks :: "(string \<times> Lock content) list"
  agents :: "string \<rightharpoonup> (Agent content \<times> int)"
  clock :: int

datatype error =
    ENOENT
  | EEXIST
  | EINVAL
  | ENAMETOOLONG
  | Unreadable
  | LockedBy string string string string
  | AcquireFailed error
  | OwnedByOther string
  | ResourceLocked string string
  | ReleaseSome "error list"

section \<open>Records as JSON\<close>

text \<open>
  \<open>utf8.DecodeRuneInString\<close>, as far as the encoder uses it: the number of bytes of
  the rune at the head of the string, and 0 where the head byte starts no well-formed
  rune.
\<close>

definition inRange :: "nat \<Rightarrow> nat \<Rightarrow> char \<Rightarrow> bool" where
  "inRange lo hi c = (lo \<le> of_char c \<and> of_char c \<le> hi)"

fun runeLen :: "string \<Rightarrow> nat" where
  "runeLen [] = 0"
| "runeLen (b # bs) =
     (let x = (of_char b :: nat) in
      if x < 0x80 then 1
      else if 0xC2 \<le> x \<and> x \<le> 0xDF then
        (case bs of
           b1 # rest \<Rightarrow> if inRange 0x80 0xBF b1 then 2 else 0
         | [] \<Rightarrow> 0)
      else if 0xE0 \<le> x \<and> x \<le> 0xEF then
        (case bs of
           b1 # b2 # rest \<Rightarrow>
             if inRange (if x = 0xE0 then 0xA0 else 0x80) (if x = 0xED then 0x9F else 0xBF) b1
                \<and> inRange 0x80 0xBF b2
             then 3 else 0
         | _ \<Rightarrow> 0)
      else if 0xF0 \<le> x \<and> x \<le> 0xF4 then
        (case bs of
           b1 # b2 # b3 # rest \<Rightarrow>
             if inRange (if x = 0xF0 then 0x90 else 0x80) (if x = 0xF4 then 0x8F else 0xBF) b1
                \<and> inRange 0x80 0xBF b2 \<and> inRange 0x80 0xBF b3
             then 4 else 0
         | _ \<Rightarrow> 0)
      else 0)"

text \<open>
  A string as it reads back after \<open>json.MarshalIndent\<close> and \<open>json.Unmarshal\<close>: the
  encoder writes every byte that starts no well-formed rune as the replacement
  character U+FFFD, and everything else reads back as written. \<open>k\<close> counts the bytes
  still to copy of the rune in progress.
\<close>

fun jsonBytes :: "nat \<Rightarrow> string \<Rightarrow> string" where
  "jsonBytes k [] = []"
| "jsonBytes k (b # bs) =
     (if k > 0 then b # jsonBytes (k - 1) bs
      else case runeLen (b # bs) of
             0 \<Rightarrow> CHR 0xEF # CHR 0xBF # CHR 0xBD # jsonBytes 0 bs
           | Suc n \<Rightarrow> b # jsonBytes n bs)"

definition jsonString :: "string \<Rightarrow> string" where
  "jsonString s = jsonBytes 0 s"

definition jsonLock :: "Lock \<Rightarrow> Lock" where
  "jsonLock lock =
     lock\<lparr>Resource := jsonString (Resource lock), AgentID := jsonString (AgentID lock),
          AgentName := jsonString (AgentName lock), Operation := jsonString (Operation lock)\<rparr>"

definition jsonAgent :: "Agent \<Rightarrow> Agent" where
  "jsonAgent agent =
     agent\<lparr>ID := jsonString (ID agent), Name := jsonString (Name agent),
           CurrentTask := jsonString (CurrentTask agent),
           LocksHeld := map jsonString (LocksHeld agent)\<rparr>"

section \<open>File names\<close>

text \<open>\<open>strings.ReplaceAll\<close> with one-byte arguments.\<close>

definition ReplaceAll :: "string \<Rightarrow> char \<Rightarrow> char \<Rightarrow> string" where
  "ReplaceAll s old new = map (\<lambda>c. if c = old then new else c) s"

text \<open>
  The file name \<open>lockPath\<close> and \<open>agentPath\<close> build; the directory they join it to
  follows below. A name made here has no slash, so that joining leaves it as it is.
\<close>

definition lockPath :: "string \<Rightarrow> string" where
  "lockPath resource =
     (let safe = ReplaceAll resource (CHR ''/'') (CHR ''-'');
          safe = ReplaceAll safe (CHR 0x5C) (CHR ''-'');
          safe = ReplaceAll safe (CHR ''*'') (CHR ''_'');
          safe = ReplaceAll safe (CHR ''?'') (CHR ''_'')
      in safe @ ''.lock'')"

definition agentPath :: "string \<Rightarrow> string" where
  "agentPath ident =
     (let safe = ReplaceAll ident (CHR ''/'') (CHR ''-'');
          safe = ReplaceAll safe (CHR 0x5C) (CHR ''-'')
      in safe @ ''.agent'')"

text \<open>\<open>strings.Split\<close> and \<open>strings.Join\<close> at the slash.\<close>

fun splitSlash :: "string \<Rightarrow> string list" where
  "splitSlash [] = [[]]"
| "splitSlash (c # cs) =
     (if c = CHR ''/'' then [] # splitSlash cs
      else case splitSlash cs of
             [] \<Rightarrow> [[c]]
           | s # ss \<Rightarrow> (c # s) # ss)"

fun joinSlash :: "string list \<Rightarrow> string" where
  "joinSlash [] = []"
| "joinSlash [e] = e"
| "joinSlash (e # es) = e @ CHR ''/'' # joinSlash es"

text \<open>
  \<open>filepath.Clean\<close> on a system whose separator is the slash: empty elements and
  \<open>.\<close> go, \<open>..\<close> takes the element before it with it, or stays at the head of a
  path that is not rooted. \<open>out\<close> holds the elements kept so far, the last one first.
\<close>

fun cleanElems :: "bool \<Rightarrow> string list \<Rightarrow> string list \<Rightarrow> string list" where
  "cleanElems rooted out [] = rev out"
| "cleanElems rooted out (e # es) =
     (if e = [] \<or> e = ''.'' then cleanElems rooted out es
      else if e = ''..'' then
        (case out of
           [] \<Rightarrow> if rooted then cleanElems rooted [] es else cleanElems rooted [e] es
         | prev # rest \<Rightarrow>
             if prev = ''..'' then cleanElems rooted (e # out) es
             else cleanElems rooted rest es)
      else cleanElems rooted (e # out) es)"

definition Clean :: "string \<Rightarrow> string" where
  "Clean path =
     (case path of
        [] \<Rightarrow> ''.''
      | c # cs \<Rightarrow>
          (let rooted = (c = CHR ''/'');
               out = cleanElems rooted [] (splitSlash path)
           in if rooted then CHR ''/'' # joinSlash out
              else if out = [] then ''.''
              else joinSlash out))"

text \<open>\<open>filepath.Join\<close>: the elements from the first one that is not empty, cleaned.\<close>

definition Join :: "string list \<Rightarrow> string" where
  "Join elem =
     (case dropWhile (\<lambda>e. e = []) elem of
        [] \<Rightarrow> []
      | es \<Rightarrow> Clean (joinSlash es))"

text \<open>The path of an agent's file as the registry forms it.\<close>

definition agentFile :: "Manager \<Rightarrow> string \<Rightarrow> string" where
  "agentFile mgr ident = Join [coordDir mgr, AgentsDir, agentPath ident]"

text \<open>The path \<open>IsStale\<close> forms for the heartbeat file of a lock's owner.\<close>

definition heartbeatPath :: "Manager \<Rightarrow> string \<Rightarrow> string" where
  "heartbeatPath mgr agentID = Join [coordDir mgr, AgentsDir, agentID @ ''.agent'']"

text \<open>
  A file name the system refuses: one with a zero byte (\<open>EINVAL\<close>, from the system
  call wrapper), one longer than 255 bytes (\<open>ENAMETOOLONG\<close>, the limit of the usual
  file systems).
\<close>

definition nameError :: "string \<Rightarrow> error option" where
  "nameError name =
     (if CHR 0x00 \<in> set name then Some EINVAL
      else if length name > 255 then Some ENAMETOOLONG
      else None)"

section \<open>Durations\<close>

definition Second :: int where
  "Second = 1000000000"

definition maxDuration :: int where
  "maxDuration = 2 ^ 63 - 1"

definition minDuration :: int where
  "minDuration = - (2 ^ 63)"

text \<open>Two's complement wrap-around of a 64-bit signed integer.\<close>

definition wrap64 :: "int \<Rightarrow> int" where
  "wrap64 x = (x + 2 ^ 63) mod 2 ^ 64 - 2 ^ 63"

text \<open>\<open>time.Duration(n) * time.Second\<close>: the multiplication wraps.\<close>

definition seconds :: "int \<Rightarrow> int" where
  "seconds n = wrap64 (n * Second)"

text \<open>\<open>time.Since(t)\<close>, that is \<open>Now().Sub(t)\<close>: the difference saturates.\<close>

definition Since :: "int \<Rightarrow> int \<Rightarrow> int" where
  "Since now t =
     (let d = now - t
      in if d > maxDuration then maxDuration
         else if d < minDuration then minDuration
         else d)"

section \<open>Staleness\<close>

text \<open>
  One reading of the clock serves the whole call. \<open>os.Stat\<close> is asked for the path
  joined from the owner's identifier as the lock has it, without the replacement
  \<open>agentPath\<close> makes, and only the modification time of what it finds is used.
\<close>

definition IsStale :: "Manager \<Rightarrow> World \<Rightarrow> Lock \<Rightarrow> bool" where
  "IsStale mgr w lock =
     (if Since (clock w) (AcquiredAt lock) > seconds (TTLSeconds lock) then True
      else case agents w (heartbeatPath mgr (AgentID lock)) of
             None \<Rightarrow>
               if Since (clock w) (AcquiredAt lock) >
                    seconds (StaleThreshold (Settings (cfg mgr)))
               then True else False
           | Some (body, modTime) \<Rightarrow>
               if Since (clock w) modTime > seconds (StaleThreshold (Settings (cfg mgr)))
               then True else False)"

section \<open>Lock store\<close>

text \<open>\<open>strings.HasSuffix\<close>.\<close>

definition HasSuffix :: "string \<Rightarrow> string \<Rightarrow> bool" where
  "HasSuffix s suffix =
     (length suffix \<le> length s \<and> drop (length s - length suffix) s = suffix)"

text \<open>A new directory entry takes its place in file-name order.\<close>

fun insertEntry :: "string \<Rightarrow> 'a \<Rightarrow> (string \<times> 'a) list \<Rightarrow> (string \<times> 'a) list" where
  "insertEntry name c [] = [(name, c)]"
| "insertEntry name c ((k, v) # es) =
     (if name < k then (name, c) # (k, v) # es else (k, v) # insertEntry name c es)"

text \<open>
  \<open>syscall.Open\<close> with \<open>O_CREAT|O_EXCL|O_WRONLY\<close>: fails on a name the system
  refuses and on an existing entry, otherwise leaves an empty file.
\<close>

definition OpenExcl :: "World \<Rightarrow> string \<Rightarrow> error + World" where
  "OpenExcl w path =
     (case nameError path of
        Some err \<Rightarrow> Inl err
      | None \<Rightarrow>
          (case map_of (locks w) path of
             Some c \<Rightarrow> Inl EEXIST
           | None \<Rightarrow> Inr (w\<lparr>locks := insertEntry path Corrupt (locks w)\<rparr>)))"

text \<open>
  \<open>syscall.Write\<close> of the marshalled lock to the file just opened: the file then
  holds the record as its JSON reads back.
\<close>

definition WriteLock :: "World \<Rightarrow> string \<Rightarrow> Lock \<Rightarrow> World" where
  "WriteLock w path lock =
     w\<lparr>locks := map (\<lambda>(n, c). if n = path then (n, Parsed (jsonLock lock)) else (n, c))
                   (locks w)\<rparr>"

text \<open>\<open>os.Remove\<close>.\<close>

definition Remove :: "World \<Rightarrow> string \<Rightarrow> error + World" where
  "Remove w path =
     (case nameError path of
        Some err \<Rightarrow> Inl err
      | None \<Rightarrow>
          (case map_of (locks w) path of
             None \<Rightarrow> Inl ENOENT
           | Some c \<Rightarrow> Inr (w\<lparr>locks := filter (\<lambda>(n, c). n \<noteq> path) (locks w)\<rparr>)))"

definition Read :: "World \<Rightarrow> string \<Rightarrow> error + Lock" where
  "Read w resource =
     (case nameError (lockPath resource) of
        Some err \<Rightarrow> Inl err
      | None \<Rightarrow>
          (case map_of (locks w) (lockPath resource) of
             None \<Rightarrow> Inl ENOENT
           | Some Corrupt \<Rightarrow> Inl Unreadable
           | Some (Parsed lock) \<Rightarrow> Inr lock))"

text \<open>The loop of \<open>List\<close> over the directory entries.\<close>

fun ListEntries :: "(string \<times> Lock content) list \<Rightarrow> Lock list" where
  "ListEntries [] = []"
| "ListEntries ((name, c) # es) =
     (if \<not> HasSuffix name ''.lock'' then ListEntries es
      else case c of
             Corrupt \<Rightarrow> ListEntries es
           | Parsed lock \<Rightarrow> lock # ListEntries es)"

definition ListLocks :: "World \<Rightarrow> Lock list" where
  "ListLocks w = ListEntries (locks w)"

section \<open>Lock manager\<close>

text \<open>
  \<open>Acquire\<close> runs among other processes. The schedule says what they do to the store
  (and how far the clock moves) between a successful removal of a stale lock and the
  retry; with the empty schedule nothing happens in between. The third component of
  the result counts the retries, that is the recursive calls made.
\<close>

definition interfere :: "(World \<Rightarrow> World) list \<Rightarrow> World \<Rightarrow> World" where
  "interfere sched w = (case sched of [] \<Rightarrow> w | e # es \<Rightarrow> e w)"

function Acquire ::
  "(World \<Rightarrow> World) list \<Rightarrow> Manager \<Rightarrow> int \<Rightarrow> World \<Rightarrow>
   string \<Rightarrow> string \<Rightarrow> string \<Rightarrow> string \<Rightarrow> int \<Rightarrow> error option \<times> World \<times> nat" where
  "Acquire sched mgr pid w resource agentID agentName operation ttl =
     (let ttl = (if ttl = 0 then DefaultTTL (Settings (cfg mgr)) else ttl);
          path = lockPath resource;
          lock = \<lparr>Resource = resource, AgentID = agentID, AgentName = agentName,
                  Operation = operation, AcquiredAt = clock w, TTLSeconds = ttl,
                  PID = pid\<rparr>
      in case OpenExcl w path of
           Inl err \<Rightarrow>
             (case Read w resource of
                Inr existing \<Rightarrow>
                  if IsStale mgr w existing then
                    (case Remove w path of
                       Inr w' \<Rightarrow>
                         (case Acquire (tl sched) mgr pid (interfere sched w')
                                 resource agentID agentName operation ttl of
                            (r, w'', n) \<Rightarrow> (r, w'', Suc n))
                     | Inl removeErr \<Rightarrow>
                         (Some (LockedBy resource (AgentID existing) (AgentName existing)
                                  (Operation existing)), w, 0))
                  else
                    (Some (LockedBy resource (AgentID existing) (AgentName existing)
                             (Operation existing)), w, 0)
              | Inl readErr \<Rightarrow> (Some (AcquireFailed err), w, 0))
         | Inr w' \<Rightarrow> (None, WriteLock w' path lock, 0))"
  by pat_completeness auto

text \<open>
  The recursion ends: a retry either uses up a step of the schedule or runs on the store
  the removal left, where the lock file is gone.
\<close>

termination
proof (relation "measure (\<lambda>(sched, mgr, pid, w, resource, rest).
         2 * length sched + (if map_of (locks w) (lockPath resource) = None then 0 else 1))")
  show "wf (measure (\<lambda>(sched, mgr, pid, w, resource, rest).
         2 * length sched + (if map_of (locks w) (lockPath resource) = None then 0 else 1)))"
    by simp
next
  fix sched :: "(World \<Rightarrow> World) list" and mgr :: Manager and pid :: int and w w' :: World
    and resource agentID agentName operation path :: string and ttl ttl' :: int
  assume path: "path = lockPath resource" and removed: "Remove w path = Inr w'"
  have gone: "map_of (filter (\<lambda>(n, c). n \<noteq> k) es) k = None"
    for k :: string and es :: "(string \<times> Lock content) list"
    by (induction es) auto
  from removed have present: "map_of (locks w) path \<noteq> None"
    by (auto simp: Remove_def split: option.splits)
  from removed have "locks w' = filter (\<lambda>(n, c). n \<noteq> path) (locks w)"
    by (auto simp: Remove_def split: option.splits)
  with gone have absent: "map_of (locks w') path = None"
    by simp
  show "((tl sched, mgr, pid, interfere sched w', resource, agentID, agentName, operation, ttl'),
         (sched, mgr, pid, w, resource, agentID, agentName, operation, ttl))
        \<in> measure (\<lambda>(sched, mgr, pid, w, resource, rest).
             2 * length sched + (if map_of (locks w) (lockPath resource) = None then 0 else 1))"
    using present absent path by (cases sched) (auto simp: interfere_def)
qed

declare Acquire.simps [simp del]

definition Release :: "World \<Rightarrow> string \<Rightarrow> string \<Rightarrow> error option \<times> World" where
  "Release w resource agentID =
     (case Read w resource of
        Inl err \<Rightarrow> if err = ENOENT then (None, w) else (Some err, w)
      | Inr existing \<Rightarrow>
          if AgentID existing \<noteq> agentID then (Some (OwnedByOther (AgentID existing)), w)
          else (case Remove w (lockPath resource) of
                  Inl err \<Rightarrow> (Some err, w)
                | Inr w' \<Rightarrow> (None, w')))"



text \<open>
  \<open>doublestar.Match\<close> belongs to a library outside the repository; the manager takes
  it as a parameter. It returns whether the pattern matched and whether it reported an
  error.
\<close>

type_synonym matcher = "string \<Rightarrow> string \<Rightarrow> bool \<times> bool"

text \<open>The first loop of \<open>Check\<close>: the matched pattern, if the file is protected.\<close>

fun matchProtected :: "matcher \<Rightarrow> ProtectedPath list \<Rightarrow> string \<Rightarrow> string option" where
  "matchProtected m [] filePath = None"
| "matchProtected m (p # ps) filePath =
     (case m (Pattern p) filePath of
        (matched, err) \<Rightarrow>
          if err then matchProtected m ps filePath
          else if matched then Some (Pattern p)
          else matchProtected m ps filePath)"

text \<open>
  The second loop of \<open>Check\<close>, over the listed locks. The listing cannot fail in this
  store, so the error \<open>Check\<close> returns is always nil and is left out of its result.
\<close>

fun findLock :: "matcher \<Rightarrow> string \<Rightarrow> string \<Rightarrow> Lock list \<Rightarrow> Lock option" where
  "findLock m matchedPattern filePath [] = None"
| "findLock m matchedPattern filePath (lock # ls) =
     (if Resource lock = matchedPattern then Some lock
      else if fst (m (Resource lock) filePath) then Some lock
      else findLock m matchedPattern filePath ls)"

definition Check :: "matcher \<Rightarrow> Manager \<Rightarrow> World \<Rightarrow> string \<Rightarrow> Lock option \<times> bool" where
  "Check m mgr w filePath =
     (case matchProtected m (Protected (cfg mgr)) filePath of
        None \<Rightarrow> (None, False)
      | Some matchedPattern \<Rightarrow> (findLock m matchedPattern filePath (ListLocks w), True))"

text \<open>The loop of \<open>CheckOrAcquire\<close> that picks the resource: it ignores the error.\<close>

fun matchResource :: "matcher \<Rightarrow> ProtectedPath list \<Rightarrow> string \<Rightarrow> string" where
  "matchResource m [] filePath = []"
| "matchResource m (p # ps) filePath =
     (if fst (m (Pattern p) filePath) then Pattern p else matchResource m ps filePath)"

definition CheckOrAcquire ::
  "matcher \<Rightarrow> Manager \<Rightarrow> int \<Rightarrow> World \<Rightarrow> string \<Rightarrow> string \<Rightarrow> string \<Rightarrow> string \<Rightarrow>
   (Lock option \<times> error option) \<times> World" where
  "CheckOrAcquire m mgr pid w filePath agentID agentName operation =
     (case Check m mgr w filePath of
        (lock, protected) \<Rightarrow>
          if \<not> protected then ((None, None), w)
          else case lock of
                 Some l \<Rightarrow>
                   if AgentID l = agentID then ((Some l, None), w)
                   else ((Some l, Some (ResourceLocked (AgentID l) (Operation l))), w)
               | None \<Rightarrow>
                   (let resource = matchResource m (Protected (cfg mgr)) filePath
                    in case Acquire [] mgr pid w resource agentID agentName operation 0 of
                         (Some err, w', n) \<Rightarrow> ((None, Some err), w')
                       | (None, w', n) \<Rightarrow>
                           (case Read w' resource of
                              Inl err \<Rightarrow> ((None, Some err), w')
                            | Inr l \<Rightarrow> ((Some l, None), w'))))"

section \<open>Agent registry\<close>

text \<open>
  \<open>save\<close> writes the whole file with \<open>os.WriteFile\<close>: a name the system refuses
  leaves the store as it was; otherwise the file holds the record as its JSON reads
  back, with the time of the write.
\<close>

definition save :: "Manager \<Rightarrow> World \<Rightarrow> Agent \<Rightarrow> error option \<times> World" where
  "save mgr w agent =
     (case nameError (agentPath (ID agent)) of
        Some err \<Rightarrow> (Some err, w)
      | None \<Rightarrow>
          (None, w\<lparr>agents := (agents w)(agentFile mgr (ID agent) \<mapsto>
                                (Parsed (jsonAgent agent), clock w))\<rparr>))"

definition Register :: "Manager \<Rightarrow> World \<Rightarrow> int \<Rightarrow> string \<Rightarrow> string \<Rightarrow> error option \<times> World" where
  "Register mgr w pid ident name =
     save mgr w \<lparr>ID = ident, Name = name, StartedAt = clock w, LastHeartbeat = clock w,
                 CurrentTask = [], LocksHeld = [], ProcessID = pid\<rparr>"

definition ReadAgent :: "Manager \<Rightarrow> World \<Rightarrow> string \<Rightarrow> error + Agent" where
  "ReadAgent mgr w ident =
     (case nameError (agentPath ident) of
        Some err \<Rightarrow> Inl err
      | None \<Rightarrow>
          (case agents w (agentFile mgr ident) of
             None \<Rightarrow> Inl ENOENT
           | Some (Corrupt, modTime) \<Rightarrow> Inl Unreadable
           | Some (Parsed agent, modTime) \<Rightarrow> Inr agent))"

definition Heartbeat :: "Manager \<Rightarrow> World \<Rightarrow> int \<Rightarrow> string \<Rightarrow> error option \<times> World" where
  "Heartbeat mgr w pid ident =
     (case ReadAgent mgr w ident of
        Inl err \<Rightarrow> Register mgr w pid ident []
      | Inr agent \<Rightarrow> save mgr w (agent\<lparr>LastHeartbeat := clock w\<rparr>))"

section \<open>A glob matcher for concrete runs\<close>

text \<open>
  Modelled from the spec: the glob dialect of \<open>doublestar.Match\<close>, which is not part of
  the repository, for patterns made of literal characters, \<open>?\<close>, \<open>*\<close> and whole
  segments \<open>**\<close>, and for names without empty segments: "\<open>*\<close> matches within a path
  segment, \<open>**\<close> matches across segments"; \<open>?\<close> stands for one character of a
  segment. The brace lists of the dialect, classes and escapes are not interpreted, and
  no pattern is reported as malformed; the matcher is used below only on patterns and
  names of the kind named first.
\<close>

fun segMatch :: "string \<Rightarrow> string \<Rightarrow> bool" where
  "segMatch [] s = (s = [])"
| "segMatch (p # ps) s =
     (if p = CHR ''*'' then
        segMatch ps s \<or> (case s of [] \<Rightarrow> False | c # cs \<Rightarrow> segMatch (p # ps) cs)
      else case s of
             [] \<Rightarrow> False
           | c # cs \<Rightarrow> (p = CHR ''?'' \<or> p = c) \<and> segMatch ps cs)"

fun pathMatch :: "string list \<Rightarrow> string list \<Rightarrow> bool" where
  "pathMatch [] fs = (fs = [])"
| "pathMatch (p # ps) fs =
     (if p = ''**'' then
        pathMatch ps fs \<or> (case fs of [] \<Rightarrow> False | f # fs' \<Rightarrow> pathMatch (p # ps) fs')
      else case fs of
             [] \<Rightarrow> False
           | f # fs' \<Rightarrow> segMatch p f \<and> pathMatch ps fs')"

definition globMatch :: matcher where
  "globMatch pattern name = (pathMatch (splitSlash pattern) (splitSlash name), False)"

section \<open>The specification's wording\<close>

text \<open>
  The key encoding as the specification words it: each of the slash, the backslash,
  \<open>*\<close> and \<open>?\<close> is replaced by a filler character.
\<close>

definition encodeKey :: "string \<Rightarrow> string" where
  "encodeKey s =
     map (\<lambda>c. if c = CHR ''/'' \<or> c = CHR 0x5C then CHR ''-''
              else if c = CHR ''*'' \<or> c = CHR ''?'' then CHR ''_''
              else c) s"

text \<open>The same with the path separators only.\<close>

definition encodeSeparators :: "string \<Rightarrow> string" where
  "encodeSeparators s = map (\<lambda>c. if c = CHR ''/'' \<or> c = CHR 0x5C then CHR ''-'' else c) s"

text \<open>
  The staleness algorithm as the specification words it, over exact differences of
  times: \<open>heartbeat\<close> is the time of the owner's heartbeat record, if there is one.
\<close>

definition staleBySpec :: "int \<Rightarrow> int \<Rightarrow> Lock \<Rightarrow> int option \<Rightarrow> bool" where
  "staleBySpec now threshold lock heartbeat =
     (if now - AcquiredAt lock > TTLSeconds lock * Second then True
      else case heartbeat of
             None \<Rightarrow> now - AcquiredAt lock > threshold * Second
           | Some beat \<Rightarrow> now - beat > threshold * Second)"

text \<open>A glob matches a path when the matcher says so and reports no error.\<close>

definition globMatches :: "matcher \<Rightarrow> string \<Rightarrow> string \<Rightarrow> bool" where
  "globMatches m pattern filePath = (case m pattern filePath of (matched, err) \<Rightarrow> matched \<and> \<not> err)"

text \<open>
  A lock covers a file, as \<open>Check\<close> tests it: its resource is the matched pattern, or
  matches the file itself.
\<close>

definition covers :: "matcher \<Rightarrow> string \<Rightarrow> string \<Rightarrow> Lock \<Rightarrow> bool" where
  "covers m matchedPattern filePath lock =
     (Resource lock = matchedPattern \<or> fst (m (Resource lock) filePath))"





text \<open>A directory: its file names are distinct, and each is a name the system accepts.\<close>

definition directory :: "World \<Rightarrow> bool" where
  "directory w =
     (distinct (map fst (locks w)) \<and> list_all (\<lambda>(n, c). nameError n = None) (locks w))"

text \<open>Every lock record lies in the lock file of the resource it names.\<close>

definition wellPlaced :: "World \<Rightarrow> bool" where
  "wellPlaced w =
     list_all (\<lambda>(n, c). case c of Parsed lock \<Rightarrow> n = lockPath (Resource lock) | Corrupt \<Rightarrow> True)
       (locks w)"

section \<open>Concrete configurations and stores\<close>

definition protect :: "string \<Rightarrow> ProtectedPath" where
  "protect pattern = \<lparr>Pattern = pattern, Label = [], Description = []\<rparr>"

text \<open>The settings of \<open>DefaultConfig\<close>.\<close>

definition defaultSettings :: Settings where
  "defaultSettings = \<lparr>DefaultTTL = 300, StaleThreshold = 120, HeartbeatInterval = 30\<rparr>"

text \<open>A manager for the default directory, with the given patterns protected.\<close>

definition managerOf :: "string list \<Rightarrow> Manager" where
  "managerOf patterns =
     NewManager [] \<lparr>Protected = map protect patterns, Settings = defaultSettings\<rparr>"

definition emptyWorld :: World where
  "emptyWorld = \<lparr>locks = [], agents = Map.empty, clock = 0\<rparr>"

definition lockOf :: "string \<Rightarrow> string \<Rightarrow> int \<Rightarrow> int \<Rightarrow> int \<Rightarrow> Lock" where
  "lockOf resource agentID acquired ttl pid =
     \<lparr>Resource = resource, AgentID = agentID, AgentName = [], Operation = [],
      AcquiredAt = acquired, TTLSeconds = ttl, PID = pid\<rparr>"

definition agentOf :: "string \<Rightarrow> int \<Rightarrow> int \<Rightarrow> int \<Rightarrow> Agent" where
  "agentOf ident started beat pid =
     \<lparr>ID = ident, Name = [], StartedAt = started, LastHeartbeat = beat,
      CurrentTask = [], LocksHeld = [], ProcessID = pid\<rparr>"

text \<open>
  The winner of a race for \<open>r\<close> has made its exclusive create and has not written
  yet.
\<close>

definition world_created :: World where
  "world_created = emptyWorld\<lparr>locks := [(''r.lock'', Corrupt)]\<rparr>"

text \<open>Agent \<open>A\<close> sends a heartbeat at second 1.\<close>

definition world_beat_1s :: World where
  "world_beat_1s = snd (Heartbeat (managerOf []) (emptyWorld\<lparr>clock := Second\<rparr>) 7 ''A'')"

text \<open>Agent \<open>A\<close> locks \<open>r\<close> for one second at time 0.\<close>

definition world_ttl1 :: World where
  "world_ttl1 = fst (snd (Acquire [] (managerOf []) 7 emptyWorld ''r'' ''A'' [] [] 1))"

text \<open>Its heartbeat arrives half a second later, and again after two seconds.\<close>

definition world_beat_early :: World where
  "world_beat_early = snd (Heartbeat (managerOf []) (world_ttl1\<lparr>clock := 500000000\<rparr>) 7 ''A'')"

definition world_beat_late :: World where
  "world_beat_late = snd (Heartbeat (managerOf []) (world_ttl1\<lparr>clock := 2 * Second\<rparr>) 7 ''A'')"

text \<open>
  Agent \<open>a/b\<close> locks \<open>r\<close> with the default TTL at time 0 and sends a heartbeat 200
  seconds later.
\<close>

definition world_slash_owner :: World where
  "world_slash_owner =
     snd (Heartbeat (managerOf [])
            ((fst (snd (Acquire [] (managerOf []) 7 emptyWorld ''r'' ''a/b'' [] [] 0)))
               \<lparr>clock := 200 * Second\<rparr>)
            7 ''a/b'')"

text \<open>Agent \<open>A\<close> locks \<open>db/**/*\<close> for one second at time 0; two seconds pass.\<close>

definition world_db_expired :: World where
  "world_db_expired =
     (fst (snd (Acquire [] (managerOf [''db/**/*'']) 7 emptyWorld ''db/**/*'' ''A'' [] [] 1)))
       \<lparr>clock := 2 * Second\<rparr>"

text \<open>
  Under the patterns \<open>db/**/*\<close>, \<open>**/*.sql\<close>: \<open>A\<close> touches \<open>db/readme.md\<close>, then \<open>B\<close>
  touches \<open>x.sql\<close>; each call acquires the pattern its file resolves to.
\<close>

definition world_two_owners :: World where
  "world_two_owners =
     snd (CheckOrAcquire globMatch (managerOf [''db/**/*'', ''**/*.sql'']) 8
            (snd (CheckOrAcquire globMatch (managerOf [''db/**/*'', ''**/*.sql'']) 7 emptyWorld
                    ''db/readme.md'' ''A'' [] []))
            ''x.sql'' ''B'' [] [])"

text \<open>Under the pattern \<open>db/**/*\<close>, \<open>A\<close> touches \<open>db/schema/users.sql\<close>.\<close>

definition world_db_held :: World where
  "world_db_held =
     snd (CheckOrAcquire globMatch (managerOf [''db/**/*'']) 7 emptyWorld
            ''db/schema/users.sql'' ''A'' [] [])"

text \<open>
  The same call by an agent whose identifier is the single byte \<open>0xFF\<close>, which is not
  UTF-8.
\<close>

definition world_db_held_ff :: World where
  "world_db_held_ff =
     snd (CheckOrAcquire globMatch (managerOf [''db/**/*'']) 7 emptyWorld
            ''db/schema/users.sql'' [CHR 0xFF] [] [])"




text \<open>
  What a third agent \<open>C\<close> may do between another caller's removal of a stale lock on
  \<open>r\<close> and that caller's retry: take \<open>r\<close> with the default TTL; or take it for one
  second, two seconds before the retry runs.
\<close>

definition thirdAgentHolds :: "World \<Rightarrow> World" where
  "thirdAgentHolds v = fst (snd (Acquire [] (managerOf []) 9 v ''r'' ''C'' [] [] 0))"

definition thirdAgentExpires :: "World \<Rightarrow> World" where
  "thirdAgentExpires v =
     (fst (snd (Acquire [] (managerOf []) 9 v ''r'' ''C'' [] [] 1)))
       \<lparr>clock := clock v + 2 * Second\<rparr>"

text \<open>Two seconds after \<open>A\<close> took \<open>r\<close> for one second, and the same with the lock file gone.\<close>

definition world_ttl1_expired :: World where
  "world_ttl1_expired = world_ttl1\<lparr>clock := 2 * Second\<rparr>"

definition world_ttl1_removed :: World where
  "world_ttl1_removed =
     world_ttl1_expired\<lparr>locks := filter (\<lambda>(n, c). n \<noteq> lockPath ''r'') (locks world_ttl1_expired)\<rparr>"

text \<open>
  There, \<open>B\<close> acquires \<open>r\<close> by reclaiming the expired lock; then the lock file is
  removed once more.
\<close>

definition world_reclaimed :: World where
  "world_reclaimed =
     fst (snd (Acquire [] (managerOf []) 8 world_ttl1_expired ''r'' ''B'' [] [] 300))"

definition world_reclaimed_removed :: World where
  "world_reclaimed_removed =
     world_reclaimed\<lparr>locks := filter (\<lambda>(n, c). n \<noteq> lockPath ''r'') (locks world_reclaimed)\<rparr>"

section \<open>Evaluation on concrete inputs\<close>

lemmas base_defs = protect_def defaultSettings_def managerOf_def NewManager_def
  DefaultCoordDir_def emptyWorld_def lockOf_def

lemmas store_defs = Acquire.simps OpenExcl_def WriteLock_def Remove_def Read_def lockPath_def
  ReplaceAll_def nameError_def jsonLock_def jsonString_def inRange_def IsStale_def
  heartbeatPath_def Join_def Clean_def AgentsDir_def Since_def seconds_def wrap64_def
  Second_def maxDuration_def minDuration_def interfere_def Let_def

lemmas registry_defs = Heartbeat_def Register_def ReadAgent_def save_def agentPath_def
  agentFile_def jsonAgent_def agentOf_def

lemmas check_defs = Check_def CheckOrAcquire_def ListLocks_def HasSuffix_def globMatch_def

section \<open>Reading the store\<close>

lemma nameError_cases:
  "nameError n = None \<or> nameError n = Some EINVAL \<or> nameError n = Some ENAMETOOLONG"
  by (simp add: nameError_def)

lemma Read_Inr:
  "Read w r = Inr l \<longleftrightarrow>
     nameError (lockPath r) = None \<and> map_of (locks w) (lockPath r) = Some (Parsed l)"
  by (auto simp: Read_def split: option.splits content.splits)

lemma Read_Unreadable:
  "Read w r = Inl Unreadable \<longleftrightarrow>
     nameError (lockPath r) = None \<and> map_of (locks w) (lockPath r) = Some Corrupt"
  using nameError_cases [of "lockPath r"]
  by (auto simp: Read_def split: option.splits content.splits)

lemma Read_ENOENT:
  "Read w r = Inl ENOENT \<longleftrightarrow>
     nameError (lockPath r) = None \<and> map_of (locks w) (lockPath r) = None"
  using nameError_cases [of "lockPath r"]
  by (auto simp: Read_def split: option.splits content.splits)

section \<open>Paths, names and JSON on examples\<close>

text \<open>The cases of the documentation of \<open>filepath.Clean\<close> and \<open>filepath.Join\<close>.\<close>

lemma Clean_examples:
  "Clean ''abc//def//ghi'' = ''abc/def/ghi'' \<and>
   Clean ''abc/./def'' = ''abc/def'' \<and>
   Clean ''abc/def/../ghi/../jkl'' = ''abc/jkl'' \<and>
   Clean ''abc/def/../../..'' = ''..'' \<and>
   Clean ''/abc/def/../../..'' = ''/'' \<and>
   Clean ''abc/../../././../def'' = ''../../def'' \<and>
   Clean [] = ''.'' \<and>
   Clean ''/'' = ''/'' \<and>
   Clean ''abc/'' = ''abc'' \<and>
   Clean ''../../abc'' = ''../../abc''"
  by (simp add: Clean_def)

lemma Join_examples:
  "Join [''a'', ''b'', ''c''] = ''a/b/c'' \<and>
   Join [''a'', [], ''b''] = ''a/b'' \<and>
   Join ['''', ''b''] = ''b'' \<and>
   Join ['''', ''''] = '''' \<and>
   Join [''a/b'', ''../../../xyz''] = ''../xyz'' \<and>
   Join [''/'', ''a''] = ''/a''"
  by (simp add: Join_def Clean_def)

text \<open>
  The heartbeat path of a lock's owner: for the owner \<open>./A\<close> it is the file of agent
  \<open>A\<close>, while the registry keeps the owner's own record in \<open>.-A.agent\<close>.
\<close>

lemma heartbeatPath_examples:
  "heartbeatPath (managerOf []) ''A'' = ''.claude-coord/agents/A.agent'' \<and>
   heartbeatPath (managerOf []) ''./A'' = agentFile (managerOf []) ''A'' \<and>
   agentFile (managerOf []) ''./A'' = ''.claude-coord/agents/.-A.agent'' \<and>
   heartbeatPath (NewManager ''/tmp/c/'' c) ''x/../B'' = ''/tmp/c/agents/B.agent''"
  by (simp add: base_defs heartbeatPath_def agentFile_def agentPath_def ReplaceAll_def
      AgentsDir_def Join_def Clean_def)

text \<open>
  Strings through JSON: well-formed runes of one to four bytes read back as written,
  and every byte that starts none reads back as U+FFFD.
\<close>

lemma jsonString_examples:
  "jsonString ''db/**/*'' = ''db/**/*'' \<and>
   jsonString [CHR 0xC3, CHR 0xA9] = [CHR 0xC3, CHR 0xA9] \<and>
   jsonString [CHR 0xE2, CHR 0x82, CHR 0xAC] = [CHR 0xE2, CHR 0x82, CHR 0xAC] \<and>
   jsonString [CHR 0xF0, CHR 0x9F, CHR 0x98, CHR 0x80] = [CHR 0xF0, CHR 0x9F, CHR 0x98, CHR 0x80] \<and>
   jsonString [CHR 0xFF] = [CHR 0xEF, CHR 0xBF, CHR 0xBD] \<and>
   jsonString [CHR 0xC3] = [CHR 0xEF, CHR 0xBF, CHR 0xBD] \<and>
   jsonString [CHR 0xC0, CHR 0x80] =
     [CHR 0xEF, CHR 0xBF, CHR 0xBD, CHR 0xEF, CHR 0xBF, CHR 0xBD] \<and>
   jsonString [CHR ''a'', CHR 0x80, CHR ''b''] = [CHR ''a'', CHR 0xEF, CHR 0xBF, CHR 0xBD, CHR ''b'']"
  by (simp add: jsonString_def inRange_def)

lemma jsonString_ascii:
  "\<forall>c \<in> set s. of_char c < (0x80 :: nat) \<Longrightarrow> jsonString s = s"
  unfolding jsonString_def by (induction s) (auto simp: Let_def)

text \<open>The lock file of a resource of more than 250 bytes has a name the system refuses.\<close>

lemma lockPath_name:
  "CHR 0x00 \<notin> set resource \<Longrightarrow>
   nameError (lockPath resource) = (if length resource > 250 then Some ENAMETOOLONG else None)"
  by (auto simp: nameError_def lockPath_def ReplaceAll_def Let_def)

section \<open>Key encoding\<close>

text \<open>
  C9, as the code has it: the lock file's name replaces slash and backslash by \<open>-\<close>
  and \<open>*\<close> and \<open>?\<close> by \<open>_\<close>; the agent file's name replaces only slash and
  backslash, and keeps \<open>*\<close> and \<open>?\<close>.
\<close>

theorem key_encoding:
  "lockPath resource = encodeKey resource @ ''.lock'' \<and>
   agentPath ident = encodeSeparators ident @ ''.agent''"
  by (simp add: lockPath_def agentPath_def ReplaceAll_def encodeKey_def encodeSeparators_def)

text \<open>The agent identifier \<open>a*b\<close> keeps its star, where the four-character rule gives \<open>a_b\<close>.\<close>

theorem agent_key_counterexample:
  "agentPath ''a*b'' = ''a*b.agent'' \<and> encodeKey ''a*b'' @ ''.agent'' = ''a_b.agent''"
  by (simp add: agentPath_def ReplaceAll_def encodeKey_def)

text \<open>
  \<open>IsStale\<close> joins the heartbeat path from the owner's identifier as it is; for an
  identifier without slash and backslash that is the path of the file the registry
  writes.
\<close>

lemma agentPath_plain:
  assumes "CHR ''/'' \<notin> set ident" and "CHR 0x5C \<notin> set ident"
  shows "agentPath ident = ident @ ''.agent''"
proof -
  have "map (\<lambda>c. if c = old then new else c) s = s" if "old \<notin> set s" for old new :: char and s
    using that by (induction s) auto
  with assms show ?thesis
    by (simp add: agentPath_def ReplaceAll_def)
qed

lemma heartbeatPath_plain:
  assumes "CHR ''/'' \<notin> set ident" and "CHR 0x5C \<notin> set ident"
  shows "heartbeatPath mgr ident = agentFile mgr ident"
  by (simp add: heartbeatPath_def agentFile_def agentPath_plain [OF assms])

section \<open>The staleness predicate\<close>

lemma seconds_exact:
  assumes "- 9223372036 \<le> n" and "n \<le> 9223372036"
  shows "seconds n = n * Second"
  using assms unfolding seconds_def wrap64_def Second_def
  by (simp add: mod_pos_pos_trivial)

lemma Since_exceeds:
  assumes "- 9223372036 \<le> n" and "n \<le> 9223372036"
  shows "(Since now t > seconds n) = (now - t > n * Second)"
  using assms
  unfolding seconds_exact [OF assms] Since_def maxDuration_def minDuration_def Second_def Let_def
  by auto

text \<open>
  Where the TTL and the stale threshold are durations of 64 bits, \<open>IsStale\<close> goes
  through the three steps on exact times, with the modification time of the file at
  the heartbeat path for the time of the heartbeat.
\<close>

lemma IsStale_within_range:
  assumes "- 9223372036 \<le> TTLSeconds lock" and "TTLSeconds lock \<le> 9223372036"
    and "- 9223372036 \<le> StaleThreshold (Settings (cfg mgr))"
    and "StaleThreshold (Settings (cfg mgr)) \<le> 9223372036"
  shows "IsStale mgr w lock =
           staleBySpec (clock w) (StaleThreshold (Settings (cfg mgr))) lock
             (map_option snd (agents w (heartbeatPath mgr (AgentID lock))))"
  unfolding IsStale_def staleBySpec_def
  by (simp add: Since_exceeds assms split: option.splits prod.splits)

text \<open>
  C2, where the code leaves it: a lock of \<open>A\<close> with a TTL of 9223372037 seconds is
  one second old, and the registry holds the heartbeat \<open>A\<close> sent this very second.
  Its age does not exceed its TTL and the heartbeat is not older than the threshold, so
  that the three steps give "not stale"; the code multiplies the TTL into a negative
  duration and judges the lock stale.
\<close>

theorem IsStale_ttl_wraps:
  "ReadAgent (managerOf []) world_beat_1s ''A'' = Inr (agentOf ''A'' Second Second 7) \<and>
   clock world_beat_1s = Second \<and>
   seconds (TTLSeconds (lockOf ''r'' ''A'' 0 9223372037 7)) = - 9223372036709551616 \<and>
   IsStale (managerOf []) world_beat_1s (lockOf ''r'' ''A'' 0 9223372037 7) \<and>
   \<not> staleBySpec (clock world_beat_1s) (StaleThreshold (Settings (cfg (managerOf []))))
       (lockOf ''r'' ''A'' 0 9223372037 7)
       (Some (LastHeartbeat (agentOf ''A'' Second Second 7)))"
  by (simp add: base_defs store_defs registry_defs world_beat_1s_def staleBySpec_def)


text \<open>
  The code's second departure from the three steps: the registry keeps the heartbeat
  of agent \<open>a/b\<close> in the file \<open>a-b.agent\<close>, and \<open>IsStale\<close> looks for
  \<open>a/b.agent\<close>. The lock of \<open>a/b\<close> is 200 seconds old, within its TTL of 300, and
  the heartbeat has just been written; finding no file, the code compares the lock's age
  with the threshold of 120 seconds and judges the lock stale.
\<close>

lemma slash_owner_judged_stale:
  "Read world_slash_owner ''r'' = Inr (lockOf ''r'' ''a/b'' 0 300 7) \<and>
   clock world_slash_owner = 200 * Second \<and>
   ReadAgent (managerOf []) world_slash_owner ''a/b'' =
     Inr (agentOf ''a/b'' (200 * Second) (200 * Second) 7) \<and>
   agentFile (managerOf []) ''a/b'' = ''.claude-coord/agents/a-b.agent'' \<and>
   heartbeatPath (managerOf []) ''a/b'' = ''.claude-coord/agents/a/b.agent'' \<and>
   IsStale (managerOf []) world_slash_owner (lockOf ''r'' ''a/b'' 0 300 7)"
  by (simp add: base_defs store_defs registry_defs world_slash_owner_def)

lemma Acquire_conflict:
  assumes "Read w resource = Inr existing" and "\<not> IsStale mgr w existing"
  shows "Acquire sched mgr pid w resource agentID agentName operation ttl =
           (Some (LockedBy resource (AgentID existing) (AgentName existing)
                    (Operation existing)), w, 0)"
  using assms
  by (subst Acquire.simps)
     (auto simp: OpenExcl_def Read_def Let_def split: option.splits content.splits)

text \<open>
  What a heartbeat leaves: where the agent's file held no record, or a record filed
  under the same name, a successful \<open>Heartbeat\<close> leaves the agent's file with a
  record whose \<open>last_heartbeat\<close> is the time of the call, which is also the file's
  modification time.
\<close>

lemma Heartbeat_refreshes:
  assumes "Heartbeat mgr w pid ident = (None, w')"
    and "\<And>agent t. agents w (agentFile mgr ident) = Some (Parsed agent, t) \<Longrightarrow>
           agentPath (ID agent) = agentPath ident"
  shows "\<exists>agent. agents w' (agentFile mgr ident) = Some (Parsed agent, clock w) \<and>
           LastHeartbeat agent = clock w"
proof (cases "ReadAgent mgr w ident")
  case (Inl err)
  with assms(1) show ?thesis
    by (auto simp: Heartbeat_def Register_def save_def jsonAgent_def split: option.splits)
next
  case (Inr agent)
  then obtain t where "agents w (agentFile mgr ident) = Some (Parsed agent, t)"
    by (auto simp: ReadAgent_def split: option.splits content.splits)
  from assms(2) [OF this] have "agentFile mgr (ID agent) = agentFile mgr ident"
    by (simp add: agentFile_def)
  with assms(1) Inr show ?thesis
    by (auto simp: Heartbeat_def save_def jsonAgent_def split: option.splits)
qed

text \<open>
  C3, as the code has it: take a lock whose owner's identifier has neither slash nor
  backslash, so that the heartbeat file \<open>IsStale\<close> looks for is the one the registry
  writes, and let that file have been written within the last stale threshold (TTL and
  threshold being durations that fit). Then the lock is judged stale exactly when its
  TTL has elapsed; and while the TTL has not elapsed, an \<open>Acquire\<close> on its resource
  reports the conflict and leaves the store as it was.
\<close>

theorem heartbeat_protects_within_ttl:
  assumes "CHR ''/'' \<notin> set (AgentID lock)" and "CHR 0x5C \<notin> set (AgentID lock)"
    and "agents w (agentFile mgr (AgentID lock)) = Some (body, modTime)"
    and "clock w - modTime \<le> StaleThreshold (Settings (cfg mgr)) * Second"
    and "- 9223372036 \<le> TTLSeconds lock" and "TTLSeconds lock \<le> 9223372036"
    and "- 9223372036 \<le> StaleThreshold (Settings (cfg mgr))"
    and "StaleThreshold (Settings (cfg mgr)) \<le> 9223372036"
  shows "IsStale mgr w lock = (clock w - AcquiredAt lock > TTLSeconds lock * Second) \<and>
         (Read w resource = Inr lock \<and>
          clock w - AcquiredAt lock \<le> TTLSeconds lock * Second \<longrightarrow>
            Acquire sched mgr pid w resource agentID agentName operation ttl =
              (Some (LockedBy resource (AgentID lock) (AgentName lock) (Operation lock)),
               w, 0))"
proof -
  have hbfile: "agents w (heartbeatPath mgr (AgentID lock)) = Some (body, modTime)"
    using assms(1-3) by (simp add: heartbeatPath_plain)
  have stale: "IsStale mgr w lock = (clock w - AcquiredAt lock > TTLSeconds lock * Second)"
    unfolding IsStale_def using hbfile assms(4-8) by (simp add: Since_exceeds)
  show ?thesis
  proof (intro conjI impI)
    show "IsStale mgr w lock = (clock w - AcquiredAt lock > TTLSeconds lock * Second)"
      by (rule stale)
  next
    assume held: "Read w resource = Inr lock \<and>
      clock w - AcquiredAt lock \<le> TTLSeconds lock * Second"
    then have "\<not> IsStale mgr w lock"
      using stale by simp
    with held show "Acquire sched mgr pid w resource agentID agentName operation ttl =
        (Some (LockedBy resource (AgentID lock) (AgentName lock) (Operation lock)), w, 0)"
      by (simp add: Acquire_conflict)
  qed
qed

theorem heartbeat_protects_within_ttl_witness:
  "CHR ''/'' \<notin> set (AgentID (lockOf ''r'' ''A'' 0 1 7)) \<and>
   CHR 0x5C \<notin> set (AgentID (lockOf ''r'' ''A'' 0 1 7)) \<and>
   agents world_beat_early (agentFile (managerOf []) (AgentID (lockOf ''r'' ''A'' 0 1 7))) =
     Some (Parsed (agentOf ''A'' 500000000 500000000 7), 500000000) \<and>
   clock world_beat_early - 500000000 \<le>
     StaleThreshold (Settings (cfg (managerOf []))) * Second \<and>
   - 9223372036 \<le> TTLSeconds (lockOf ''r'' ''A'' 0 1 7) \<and>
   TTLSeconds (lockOf ''r'' ''A'' 0 1 7) \<le> 9223372036 \<and>
   - 9223372036 \<le> StaleThreshold (Settings (cfg (managerOf []))) \<and>
   StaleThreshold (Settings (cfg (managerOf []))) \<le> 9223372036 \<and>
   Read world_beat_early ''r'' = Inr (lockOf ''r'' ''A'' 0 1 7) \<and>
   clock world_beat_early - AcquiredAt (lockOf ''r'' ''A'' 0 1 7) \<le>
     TTLSeconds (lockOf ''r'' ''A'' 0 1 7) * Second \<and>
   \<not> IsStale (managerOf []) world_beat_early (lockOf ''r'' ''A'' 0 1 7) \<and>
   Acquire [] (managerOf []) 8 world_beat_early ''r'' ''B'' [] [] 300 =
     (Some (LockedBy ''r'' ''A'' [] []), world_beat_early, 0)"
proof -
  have plain: "CHR ''/'' \<notin> set (AgentID (lockOf ''r'' ''A'' 0 1 7))"
    "CHR 0x5C \<notin> set (AgentID (lockOf ''r'' ''A'' 0 1 7))"
    by (simp_all add: lockOf_def)
  have beat: "agents world_beat_early
      (agentFile (managerOf []) (AgentID (lockOf ''r'' ''A'' 0 1 7))) =
     Some (Parsed (agentOf ''A'' 500000000 500000000 7), 500000000)"
    by (simp add: base_defs store_defs registry_defs world_ttl1_def world_beat_early_def)
  have fresh: "clock world_beat_early - 500000000 \<le>
      StaleThreshold (Settings (cfg (managerOf []))) * Second"
    by (simp add: base_defs store_defs registry_defs world_ttl1_def world_beat_early_def)
  have ttl: "- 9223372036 \<le> TTLSeconds (lockOf ''r'' ''A'' 0 1 7)"
    "TTLSeconds (lockOf ''r'' ''A'' 0 1 7) \<le> 9223372036"
    by (simp_all add: lockOf_def)
  have threshold: "- 9223372036 \<le> StaleThreshold (Settings (cfg (managerOf [])))"
    "StaleThreshold (Settings (cfg (managerOf []))) \<le> 9223372036"
    by (simp_all add: base_defs)
  have held: "Read world_beat_early ''r'' = Inr (lockOf ''r'' ''A'' 0 1 7)"
    by (simp add: base_defs store_defs registry_defs world_ttl1_def world_beat_early_def)
  have young: "clock world_beat_early - AcquiredAt (lockOf ''r'' ''A'' 0 1 7) \<le>
      TTLSeconds (lockOf ''r'' ''A'' 0 1 7) * Second"
    by (simp add: base_defs store_defs registry_defs world_ttl1_def world_beat_early_def)
  have fields: "AgentID (lockOf ''r'' ''A'' 0 1 7) = ''A''"
    "AgentName (lockOf ''r'' ''A'' 0 1 7) = []" "Operation (lockOf ''r'' ''A'' 0 1 7) = []"
    by (simp_all add: lockOf_def)
  from heartbeat_protects_within_ttl [OF plain beat fresh ttl threshold,
      where resource = "''r''" and sched = "[]" and pid = 8 and agentID = "''B''"
        and agentName = "[]" and operation = "[]" and ttl = 300]
    plain beat fresh ttl threshold held young
  show ?thesis unfolding fields by simp
qed

text \<open>
  Agent \<open>A\<close> holds \<open>r\<close> with a TTL of one second; two seconds later its heartbeat has
  just been written, and yet the lock is judged stale and \<open>B\<close> takes it over.
\<close>

theorem heartbeat_past_ttl_counterexample:
  "agents world_beat_late (agentFile (managerOf []) ''A'') =
     Some (Parsed (agentOf ''A'' (2 * Second) (2 * Second) 7), clock world_beat_late) \<and>
   heartbeatPath (managerOf []) (AgentID (lockOf ''r'' ''A'' 0 1 7)) =
     agentFile (managerOf []) ''A'' \<and>
   Read world_beat_late ''r'' = Inr (lockOf ''r'' ''A'' 0 1 7) \<and>
   IsStale (managerOf []) world_beat_late (lockOf ''r'' ''A'' 0 1 7) \<and>
   fst (Acquire [] (managerOf []) 8 world_beat_late ''r'' ''B'' [] [] 300) = None \<and>
   Read (fst (snd (Acquire [] (managerOf []) 8 world_beat_late ''r'' ''B'' [] [] 300))) ''r'' =
     Inr (lockOf ''r'' ''B'' 2000000000 300 8)"
  by (simp add: base_defs store_defs registry_defs world_ttl1_def world_beat_late_def)


section \<open>Concurrent callers\<close>

lemma Acquire_failed:
  assumes "Read w resource = Inl Unreadable"
  shows "Acquire sched mgr pid w resource agentID agentName operation ttl =
     (Some (AcquireFailed EEXIST), w, 0)"
  using assms unfolding Read_Unreadable
  by (subst Acquire.simps) (simp add: OpenExcl_def Read_def Let_def)

text \<open>
  C1, where the code leaves it: \<open>Acquire\<close> creates the lock file and writes the record
  in two steps. Agent \<open>A\<close> has made its exclusive create on the free resource \<open>r\<close>
  and has not written yet; \<open>B\<close> calls \<open>Acquire\<close> now. The create of \<open>B\<close> fails, the
  empty file does not parse, and \<open>B\<close> gets the error "failed to acquire lock: file
  exists", which is not the conflict and names no owner. \<open>A\<close> then writes and holds
  the lock: one success, and no conflict result for the other caller.
\<close>

theorem Acquire_between_create_and_write:
  "OpenExcl emptyWorld (lockPath ''r'') = Inr world_created \<and>
   OpenExcl world_created (lockPath ''r'') = Inl EEXIST \<and>
   Read world_created ''r'' = Inl Unreadable \<and>
   Acquire [] (managerOf []) 8 world_created ''r'' ''B'' [] [] 300 =
     (Some (AcquireFailed EEXIST), world_created, 0) \<and>
   Acquire [] (managerOf []) 7 emptyWorld ''r'' ''A'' [] [] 300 =
     (None, WriteLock world_created (lockPath ''r'') (lockOf ''r'' ''A'' 0 300 7), 0) \<and>
   Read (WriteLock world_created (lockPath ''r'') (lockOf ''r'' ''A'' 0 300 7)) ''r'' =
     Inr (lockOf ''r'' ''A'' 0 300 7)"
  by (simp add: base_defs store_defs world_created_def)

text \<open>
  A second interleaving, with two successes: the lock of \<open>A\<close> on \<open>r\<close> has expired, and
  \<open>B\<close> and \<open>C\<close> both fail to create, read the lock of \<open>A\<close> and judge it stale.
  \<open>B\<close> goes on first: it removes the file, retries and holds the lock. \<open>C\<close> now makes
  the removal it had decided on, which deletes the lock of \<open>B\<close>, retries and holds the
  lock as well.
\<close>

lemma reclaim_race:
  "OpenExcl world_ttl1_expired (lockPath ''r'') = Inl EEXIST \<and>
   Read world_ttl1_expired ''r'' = Inr (lockOf ''r'' ''A'' 0 1 7) \<and>
   IsStale (managerOf []) world_ttl1_expired (lockOf ''r'' ''A'' 0 1 7) \<and>
   Acquire [] (managerOf []) 8 world_ttl1_expired ''r'' ''B'' [] [] 300 =
     (None, world_reclaimed, 1) \<and>
   Read world_reclaimed ''r'' = Inr (lockOf ''r'' ''B'' 2000000000 300 8) \<and>
   Remove world_reclaimed (lockPath ''r'') = Inr world_reclaimed_removed \<and>
   fst (Acquire [] (managerOf []) 9 world_reclaimed_removed ''r'' ''C'' [] [] 300) = None \<and>
   Read (fst (snd (Acquire [] (managerOf []) 9 world_reclaimed_removed ''r'' ''C'' [] [] 300)))
     ''r'' = Inr (lockOf ''r'' ''C'' 2000000000 300 9)"
  by (simp add: base_defs store_defs world_ttl1_def world_ttl1_expired_def world_reclaimed_def
      world_reclaimed_removed_def)

section \<open>Release\<close>

lemma map_of_removed:
  "map_of (filter (\<lambda>(n, c). n \<noteq> path) es) path = None"
  by (induction es) auto

lemma map_of_kept:
  "k \<noteq> path \<Longrightarrow> map_of (filter (\<lambda>(n, c). n \<noteq> path) es) k = map_of es k"
  by (induction es) auto

text \<open>
  C5: \<open>Release\<close> on a resource without a lock file succeeds and changes nothing; on a
  lock of another owner it fails with the ownership error and the store stays as it
  was; on a lock of the caller it removes the lock file and nothing else, after which
  no lock can be read for the resource.
\<close>

theorem Release_cases:
  "(Read w resource = Inl ENOENT \<longrightarrow> Release w resource agentID = (None, w)) \<and>
   (Read w resource = Inr lock \<and> AgentID lock \<noteq> agentID \<longrightarrow>
      Release w resource agentID = (Some (OwnedByOther (AgentID lock)), w)) \<and>
   (Read w resource = Inr lock \<and> AgentID lock = agentID \<longrightarrow>
      Release w resource agentID =
        (None, w\<lparr>locks := filter (\<lambda>(n, c). n \<noteq> lockPath resource) (locks w)\<rparr>) \<and>
      Read (snd (Release w resource agentID)) resource = Inl ENOENT \<and>
      (\<forall>k. k \<noteq> lockPath resource \<longrightarrow>
         map_of (locks (snd (Release w resource agentID))) k = map_of (locks w) k))"
proof (intro conjI impI)
  assume "Read w resource = Inl ENOENT"
  then show "Release w resource agentID = (None, w)"
    by (simp add: Release_def)
next
  assume "Read w resource = Inr lock \<and> AgentID lock \<noteq> agentID"
  then show "Release w resource agentID = (Some (OwnedByOther (AgentID lock)), w)"
    by (simp add: Release_def)
next
  assume own: "Read w resource = Inr lock \<and> AgentID lock = agentID"
  then have stored: "nameError (lockPath resource) = None"
    "map_of (locks w) (lockPath resource) = Some (Parsed lock)"
    by (simp_all add: Read_Inr)
  with own show released: "Release w resource agentID =
      (None, w\<lparr>locks := filter (\<lambda>(n, c). n \<noteq> lockPath resource) (locks w)\<rparr>)"
    by (simp add: Release_def Remove_def)
  show "Read (snd (Release w resource agentID)) resource = Inl ENOENT"
    by (simp add: released Read_ENOENT stored(1) map_of_removed)
  show "\<forall>k. k \<noteq> lockPath resource \<longrightarrow>
      map_of (locks (snd (Release w resource agentID))) k = map_of (locks w) k"
    by (simp add: released map_of_kept)
qed

theorem Release_cases_witness:
  "Read world_ttl1 ''q'' = Inl ENOENT \<and> Release world_ttl1 ''q'' ''A'' = (None, world_ttl1) \<and>
   Read world_ttl1 ''r'' = Inr (lockOf ''r'' ''A'' 0 1 7) \<and>
   AgentID (lockOf ''r'' ''A'' 0 1 7) \<noteq> ''B'' \<and>
   Release world_ttl1 ''r'' ''B'' = (Some (OwnedByOther ''A''), world_ttl1) \<and>
   AgentID (lockOf ''r'' ''A'' 0 1 7) = ''A'' \<and>
   Release world_ttl1 ''r'' ''A'' = (None, world_ttl1\<lparr>locks := []\<rparr>) \<and>
   Read (snd (Release world_ttl1 ''r'' ''A'')) ''r'' = Inl ENOENT"
proof -
  have free: "Read world_ttl1 ''q'' = Inl ENOENT"
    by (simp add: base_defs store_defs world_ttl1_def)
  have held: "Read world_ttl1 ''r'' = Inr (lockOf ''r'' ''A'' 0 1 7)"
    by (simp add: base_defs store_defs world_ttl1_def)
  have owner: "AgentID (lockOf ''r'' ''A'' 0 1 7) \<noteq> ''B''"
    "AgentID (lockOf ''r'' ''A'' 0 1 7) = ''A''"
    by (simp_all add: lockOf_def)
  have rest: "filter (\<lambda>(n, c). n \<noteq> lockPath ''r'') (locks world_ttl1) = []"
    by (simp add: base_defs store_defs world_ttl1_def)
  from Release_cases [where w = world_ttl1 and resource = "''q''" and agentID = "''A''"] free
  have one: "Release world_ttl1 ''q'' ''A'' = (None, world_ttl1)"
    by simp
  from Release_cases [where w = world_ttl1 and resource = "''r''" and agentID = "''B''"
      and lock = "lockOf ''r'' ''A'' 0 1 7"] held owner
  have two: "Release world_ttl1 ''r'' ''B'' = (Some (OwnedByOther ''A''), world_ttl1)"
    by simp
  from Release_cases [where w = world_ttl1 and resource = "''r''" and agentID = "''A''"
      and lock = "lockOf ''r'' ''A'' 0 1 7"] held owner rest
  have three: "Release world_ttl1 ''r'' ''A'' = (None, world_ttl1\<lparr>locks := []\<rparr>)"
    "Read (snd (Release world_ttl1 ''r'' ''A'')) ''r'' = Inl ENOENT"
    by (simp_all add: Read_def nameError_def lockPath_def ReplaceAll_def)
  from free held owner one two three show ?thesis by simp
qed

section \<open>Pattern resolution\<close>

lemma matchProtected_find:
  "matchProtected m ps filePath =
     map_option Pattern (find (\<lambda>p. globMatches m (Pattern p) filePath) ps)"
  by (induction ps) (auto simp: globMatches_def split: prod.splits)

text \<open>
  C6: the pattern that \<open>Check\<close> resolves a file to is the first pattern, in configured
  order, whose glob matches the file, and there is none exactly when no pattern matches;
  with the patterns \<open>db/**/*\<close>, \<open>db/schema/*\<close> and a matcher under which \<open>db/**/*\<close>
  matches \<open>db/schema/users.sql\<close>, that file resolves to \<open>db/**/*\<close>. A file is
  protected exactly when some pattern matches it.
\<close>

theorem first_match_wins:
  "(matchProtected m ps filePath = Some r \<longleftrightarrow>
      (\<exists>i < length ps. Pattern (ps ! i) = r \<and> globMatches m (Pattern (ps ! i)) filePath \<and>
         (\<forall>j < i. \<not> globMatches m (Pattern (ps ! j)) filePath))) \<and>
   (matchProtected m ps filePath = None \<longleftrightarrow>
      (\<forall>p \<in> set ps. \<not> globMatches m (Pattern p) filePath)) \<and>
   (globMatches m ''db/**/*'' ''db/schema/users.sql'' \<longrightarrow>
      matchProtected m [protect ''db/**/*'', protect ''db/schema/*''] ''db/schema/users.sql'' =
        Some ''db/**/*'') \<and>
   snd (Check m mgr w filePath) =
     (\<exists>p \<in> set (Protected (cfg mgr)). globMatches m (Pattern p) filePath)"
proof (intro conjI)
  show "matchProtected m ps filePath = Some r \<longleftrightarrow>
      (\<exists>i < length ps. Pattern (ps ! i) = r \<and> globMatches m (Pattern (ps ! i)) filePath \<and>
         (\<forall>j < i. \<not> globMatches m (Pattern (ps ! j)) filePath))"
    unfolding matchProtected_find by (auto simp: find_Some_iff)
  show "matchProtected m ps filePath = None \<longleftrightarrow>
      (\<forall>p \<in> set ps. \<not> globMatches m (Pattern p) filePath)"
    unfolding matchProtected_find by (auto simp: find_None_iff)
  show "globMatches m ''db/**/*'' ''db/schema/users.sql'' \<longrightarrow>
      matchProtected m [protect ''db/**/*'', protect ''db/schema/*''] ''db/schema/users.sql'' =
        Some ''db/**/*''"
    by (auto simp: globMatches_def protect_def split: prod.splits)
  show "snd (Check m mgr w filePath) =
     (\<exists>p \<in> set (Protected (cfg mgr)). globMatches m (Pattern p) filePath)"
  proof -
    have "matchProtected m (Protected (cfg mgr)) filePath = None \<longleftrightarrow>
        (\<forall>p \<in> set (Protected (cfg mgr)). \<not> globMatches m (Pattern p) filePath)"
      unfolding matchProtected_find by (auto simp: find_None_iff)
    moreover have "snd (Check m mgr w filePath) =
        (matchProtected m (Protected (cfg mgr)) filePath \<noteq> None)"
      by (simp add: Check_def split: option.splits)
    ultimately show ?thesis by blast
  qed
qed

theorem first_match_wins_witness:
  "globMatches globMatch ''db/**/*'' ''db/schema/users.sql'' \<and>
   globMatches globMatch ''db/schema/*'' ''db/schema/users.sql'' \<and>
   matchProtected globMatch [protect ''db/**/*'', protect ''db/schema/*'']
     ''db/schema/users.sql'' = Some ''db/**/*'' \<and>
   \<not> globMatches globMatch ''db/**/*'' ''README.md'' \<and>
   \<not> globMatches globMatch ''db/schema/*'' ''README.md'' \<and>
   matchProtected globMatch [protect ''db/**/*'', protect ''db/schema/*''] ''README.md'' = None"
proof -
  have first: "globMatches globMatch ''db/**/*'' ''db/schema/users.sql''"
    by (simp add: globMatches_def globMatch_def)
  have second: "globMatches globMatch ''db/schema/*'' ''db/schema/users.sql''"
    by (simp add: globMatches_def globMatch_def)
  have none: "\<forall>p \<in> set [protect ''db/**/*'', protect ''db/schema/*''].
      \<not> globMatches globMatch (Pattern p) ''README.md''"
    by (simp add: globMatches_def globMatch_def protect_def)
  have apart: "\<not> globMatches globMatch ''db/**/*'' ''README.md''"
    "\<not> globMatches globMatch ''db/schema/*'' ''README.md''"
    by (simp_all add: globMatches_def globMatch_def)
  from first_match_wins [where m = globMatch
      and ps = "[protect ''db/**/*'', protect ''db/schema/*'']" and filePath = "''README.md''"]
    first_match_wins [where m = globMatch] first second none apart
  show ?thesis by blast
qed

section \<open>CheckOrAcquire\<close>

text \<open>
  C10: when \<open>Check\<close> finds a lock of another agent for a protected file,
  \<open>CheckOrAcquire\<close> fails with the conflict, returns that lock and leaves the store as
  it was, whether or not the lock is stale; the store can change (through \<open>Acquire\<close>,
  where stale locks are reclaimed) only when \<open>Check\<close> finds the file protected and no
  lock at all.
\<close>

theorem CheckOrAcquire_never_reclaims:
  "(Check m mgr w filePath = (Some l, True) \<and> AgentID l \<noteq> agentID \<longrightarrow>
      CheckOrAcquire m mgr pid w filePath agentID agentName operation =
        ((Some l, Some (ResourceLocked (AgentID l) (Operation l))), w)) \<and>
   (Check m mgr w filePath \<noteq> (None, True) \<longrightarrow>
      snd (CheckOrAcquire m mgr pid w filePath agentID agentName operation) = w)"
  by (auto simp: CheckOrAcquire_def split: prod.splits option.splits)

theorem CheckOrAcquire_never_reclaims_witness:
  "Check globMatch (managerOf [''db/**/*'']) world_db_expired ''db/schema/users.sql'' =
     (Some (lockOf ''db/**/*'' ''A'' 0 1 7), True) \<and>
   AgentID (lockOf ''db/**/*'' ''A'' 0 1 7) \<noteq> ''B'' \<and>
   IsStale (managerOf [''db/**/*'']) world_db_expired (lockOf ''db/**/*'' ''A'' 0 1 7) \<and>
   CheckOrAcquire globMatch (managerOf [''db/**/*'']) 8 world_db_expired
       ''db/schema/users.sql'' ''B'' [] [] =
     ((Some (lockOf ''db/**/*'' ''A'' 0 1 7), Some (ResourceLocked ''A'' [])),
      world_db_expired) \<and>
   fst (Acquire [] (managerOf [''db/**/*'']) 8 world_db_expired ''db/**/*'' ''B'' [] [] 0) = None"
proof -
  have found: "Check globMatch (managerOf [''db/**/*'']) world_db_expired
      ''db/schema/users.sql'' = (Some (lockOf ''db/**/*'' ''A'' 0 1 7), True)"
    by (simp add: base_defs store_defs check_defs world_db_expired_def)
  have other: "AgentID (lockOf ''db/**/*'' ''A'' 0 1 7) \<noteq> ''B''"
    by (simp add: lockOf_def)
  have stale: "IsStale (managerOf [''db/**/*'']) world_db_expired
      (lockOf ''db/**/*'' ''A'' 0 1 7)"
    by (simp add: base_defs store_defs check_defs world_db_expired_def)
  have reclaim: "fst (Acquire [] (managerOf [''db/**/*'']) 8 world_db_expired ''db/**/*''
      ''B'' [] [] 0) = None"
    by (simp add: base_defs store_defs check_defs world_db_expired_def)
  have fields: "AgentID (lockOf ''db/**/*'' ''A'' 0 1 7) = ''A''"
    "Operation (lockOf ''db/**/*'' ''A'' 0 1 7) = []"
    by (simp_all add: lockOf_def)
  from CheckOrAcquire_never_reclaims [where m = globMatch and mgr = "managerOf [''db/**/*'']"
      and w = world_db_expired and filePath = "''db/schema/users.sql''" and agentID = "''B''"
      and l = "lockOf ''db/**/*'' ''A'' 0 1 7" and pid = 8 and agentName = "[]"
      and operation = "[]"]
    found other stale reclaim fields
  show ?thesis by simp
qed
section \<open>The store after a successful acquire\<close>

lemma set_ListEntries:
  "set (ListEntries es) = {l. \<exists>n. (n, Parsed l) \<in> set es \<and> HasSuffix n ''.lock''}"
  by (induction es rule: ListEntries.induct) (auto split: content.splits)

lemma findLock_find:
  "findLock m mp f ls = find (covers m mp f) ls"
  by (induction ls) (auto simp: covers_def)

lemma set_insertEntry: "set (insertEntry n c es) = insert (n, c) (set es)"
  by (induction n c es rule: insertEntry.induct) auto

lemma HasSuffix_lockPath: "HasSuffix (lockPath r) ''.lock''"
  by (simp add: lockPath_def HasSuffix_def Let_def)

lemma absent_no_entry: "map_of es path = None \<Longrightarrow> (n, c) \<in> set es \<Longrightarrow> n \<noteq> path"
  by (auto simp: map_of_eq_None_iff image_iff)

lemma filter_absent: "map_of es path = None \<Longrightarrow> filter (\<lambda>(n, c). n \<noteq> path) es = es"
  by (induction es) (auto split: if_splits)

lemma set_put:
  assumes "map_of es path = None"
  shows "set (map (\<lambda>(n, c). if n = path then (n, Parsed lock) else (n, c))
            (insertEntry path Corrupt es)) = insert (path, Parsed lock) (set es)"
  using absent_no_entry [OF assms] by (force simp: set_insertEntry image_iff)

lemma map_of_insertEntry:
  "map_of es n = None \<Longrightarrow> map_of (insertEntry n c es) k = (if k = n then Some c else map_of es k)"
  by (induction n c es rule: insertEntry.induct) auto

lemma map_of_written:
  "map_of (map (\<lambda>(n, c). if n = path then (n, Parsed lock) else (n, c)) es) k =
     (if k = path then map_option (\<lambda>c. Parsed lock) (map_of es k) else map_of es k)"
  by (induction es) auto

lemma Acquire_free:
  assumes "nameError (lockPath resource) = None"
    and "map_of (locks w) (lockPath resource) = None"
  shows "Acquire sched mgr pid w resource agentID agentName operation ttl =
     (None,
      WriteLock (w\<lparr>locks := insertEntry (lockPath resource) Corrupt (locks w)\<rparr>)
        (lockPath resource)
        \<lparr>Resource = resource, AgentID = agentID, AgentName = agentName,
         Operation = operation, AcquiredAt = clock w,
         TTLSeconds = (if ttl = 0 then DefaultTTL (Settings (cfg mgr)) else ttl), PID = pid\<rparr>, 0)"
  using assms by (subst Acquire.simps) (simp add: OpenExcl_def Let_def)

lemma Acquire_refused:
  assumes "nameError (lockPath resource) = Some err"
  shows "Acquire sched mgr pid w resource agentID agentName operation ttl =
     (Some (AcquireFailed err), w, 0)"
  using assms by (subst Acquire.simps) (simp add: OpenExcl_def Read_def Let_def)

lemma Acquire_name_too_long:
  assumes "CHR 0x00 \<notin> set resource" and "length resource > 250"
  shows "Acquire sched mgr pid w resource agentID agentName operation ttl =
     (Some (AcquireFailed ENAMETOOLONG), w, 0)"
  using assms by (simp add: Acquire_refused lockPath_name)

lemma Acquire_stale:
  assumes "Read w resource = Inr existing" and "IsStale mgr w existing"
  shows "Acquire sched mgr pid w resource agentID agentName operation ttl =
     (case Acquire (tl sched) mgr pid
             (interfere sched (w\<lparr>locks := filter (\<lambda>(n, c). n \<noteq> lockPath resource) (locks w)\<rparr>))
             resource agentID agentName operation
             (if ttl = 0 then DefaultTTL (Settings (cfg mgr)) else ttl) of
        (r, w'', n) \<Rightarrow> (r, w'', Suc n))"
  using assms unfolding Read_Inr
  by (subst Acquire.simps) (simp add: OpenExcl_def Read_def Remove_def Let_def)

text \<open>
  How a call of \<open>Acquire\<close> falls out, by what it finds at the lock file's name.
\<close>

lemma Acquire_cases:
  obtains (refused) err where "nameError (lockPath resource) = Some err"
  | (free) "nameError (lockPath resource) = None" "map_of (locks w) (lockPath resource) = None"
  | (unreadable) "Read w resource = Inl Unreadable"
  | (held) existing where "Read w resource = Inr existing" "\<not> IsStale mgr w existing"
  | (stale) existing where "Read w resource = Inr existing" "IsStale mgr w existing"
proof (cases "nameError (lockPath resource)")
  case (Some err)
  then show ?thesis by (rule refused)
next
  case valid: None
  show ?thesis
  proof (cases "map_of (locks w) (lockPath resource)")
    case None
    with valid show ?thesis by (rule free)
  next
    case (Some c)
    show ?thesis
    proof (cases c)
      case Corrupt
      with Some valid have "Read w resource = Inl Unreadable"
        by (simp add: Read_Unreadable)
      then show ?thesis by (rule unreadable)
    next
      case (Parsed existing)
      with Some valid have "Read w resource = Inr existing"
        by (simp add: Read_Inr)
      then show ?thesis
        by (cases "IsStale mgr w existing") (auto intro: held stale)
    qed
  qed
qed

text \<open>
  A successful \<open>Acquire\<close>, run alone, leaves the lock file of the resource with the
  caller's record as its JSON reads back, in place of whatever the file held, and every
  other file as it was.
\<close>

lemma Acquire_alone_success:
  assumes "Acquire [] mgr pid w resource agentID agentName operation ttl = (None, w1, k)"
  shows "\<exists>lock. Resource lock = jsonString resource \<and> AgentID lock = jsonString agentID \<and>
           nameError (lockPath resource) = None \<and>
           set (locks w1) = insert (lockPath resource, Parsed lock)
             (set (filter (\<lambda>(n, c). n \<noteq> lockPath resource) (locks w))) \<and>
           map_of (locks w1) (lockPath resource) = Some (Parsed lock)"
proof -
  let ?path = "lockPath resource"
  have fresh: "\<exists>lock. Resource lock = jsonString resource \<and> AgentID lock = jsonString agentID \<and>
      nameError ?path = None \<and>
      set (locks v1) = insert (?path, Parsed lock) (set (locks v)) \<and>
      map_of (locks v1) ?path = Some (Parsed lock)"
    if "nameError ?path = None" and "map_of (locks v) ?path = None"
      and "Acquire [] mgr pid v resource agentID agentName operation t = (None, v1, j)"
    for v v1 t j
  proof -
    let ?lock = "jsonLock \<lparr>Resource = resource, AgentID = agentID, AgentName = agentName,
         Operation = operation, AcquiredAt = clock v,
         TTLSeconds = (if t = 0 then DefaultTTL (Settings (cfg mgr)) else t), PID = pid\<rparr>"
    from that have v1: "locks v1 =
        map (\<lambda>(n, c). if n = ?path then (n, Parsed ?lock) else (n, c))
          (insertEntry ?path Corrupt (locks v))"
      by (auto simp: Acquire_free WriteLock_def)
    have "set (locks v1) = insert (?path, Parsed ?lock) (set (locks v))"
      unfolding v1 using that(2) by (rule set_put)
    moreover have "map_of (locks v1) ?path = Some (Parsed ?lock)"
      unfolding v1 using that(2) by (simp add: map_of_written map_of_insertEntry)
    moreover have "Resource ?lock = jsonString resource" "AgentID ?lock = jsonString agentID"
      by (simp_all add: jsonLock_def)
    ultimately show ?thesis
      using that(1) by (intro exI [of _ ?lock]) simp
  qed
  show ?thesis
  proof (cases rule: Acquire_cases [where resource = resource and w = w and mgr = mgr])
    case (refused err)
    with assms show ?thesis by (simp add: Acquire_refused)
  next
    case free
    with fresh [OF free assms] show ?thesis
      by (simp add: filter_absent)
  next
    case unreadable
    with assms show ?thesis by (simp add: Acquire_failed)
  next
    case (held existing)
    with assms show ?thesis by (simp add: Acquire_conflict)
  next
    case (stale existing)
    let ?v = "w\<lparr>locks := filter (\<lambda>(n, c). n \<noteq> ?path) (locks w)\<rparr>"
    obtain r v1 j where again: "Acquire [] mgr pid ?v resource agentID agentName operation
        (if ttl = 0 then DefaultTTL (Settings (cfg mgr)) else ttl) = (r, v1, j)"
      by (metis prod_cases3)
    with assms stale have "r = None" and "v1 = w1"
      by (simp_all add: Acquire_stale [OF stale] interfere_def)
    moreover have "map_of (locks ?v) ?path = None"
      by (simp add: map_of_removed)
    moreover have "nameError ?path = None"
      using stale(1) by (simp add: Read_Inr)
    ultimately show ?thesis
      using fresh [of ?v _ w1 j] again by simp
  qed
qed

section \<open>CheckOrAcquire by the holder\<close>

lemma matchResource_matches:
  "matchProtected m ps f = Some mp \<Longrightarrow> fst (m (matchResource m ps f) f)"
  by (induction ps) (auto split: prod.splits if_splits)

lemma Check_clock: "Check m mgr (w\<lparr>clock := t\<rparr>) f = Check m mgr w f"
  by (simp add: Check_def ListLocks_def split: option.splits)

lemma Check_find:
  "matchProtected m (Protected (cfg mgr)) f = Some mp \<Longrightarrow>
     Check m mgr w f = (find (covers m mp f) (ListLocks w), True)"
  by (simp add: Check_def findLock_find)

text \<open>
  Where some listed lock covers the file and every listed lock that covers it is the
  caller's, \<open>Check\<close> returns the first of them, and \<open>CheckOrAcquire\<close> returns it
  without error.
\<close>

lemma CheckOrAcquire_own:
  assumes resolved: "matchProtected m (Protected (cfg mgr)) f = Some mp"
    and listed: "l \<in> set (ListLocks w)" and covering: "covers m mp f l"
    and own: "\<forall>l' \<in> set (ListLocks w). covers m mp f l' \<longrightarrow> AgentID l' = a"
  shows "\<exists>l'. CheckOrAcquire m mgr pid w f a nm opn = ((Some l', None), w) \<and>
           l' \<in> set (ListLocks w) \<and> AgentID l' = a \<and> covers m mp f l' \<and>
           ((\<forall>l'' \<in> set (ListLocks w). l'' \<noteq> l \<longrightarrow> \<not> covers m mp f l'') \<longrightarrow> l' = l)"
proof -
  from listed covering obtain l' where found: "find (covers m mp f) (ListLocks w) = Some l'"
    by (cases "find (covers m mp f) (ListLocks w)") (auto simp: find_None_iff)
  then have l': "l' \<in> set (ListLocks w)" "covers m mp f l'"
    by (auto simp: find_Some_iff)
  with own have mine: "AgentID l' = a"
    by blast
  have "CheckOrAcquire m mgr pid w f a nm opn = ((Some l', None), w)"
    by (simp add: CheckOrAcquire_def Check_find [OF resolved] found mine)
  with l' mine show ?thesis
    by (intro exI [of _ l']) auto
qed

text \<open>
  A call that has succeeded succeeds again, with the same lock and the same store,
  where the caller's identifier and the resource read back from JSON as they are.
\<close>

lemma CheckOrAcquire_again:
  assumes first: "CheckOrAcquire m mgr pid w f a nm opn = ((r, None), w1)"
    and owner: "jsonString a = a"
    and resource: "jsonString (matchResource m (Protected (cfg mgr)) f) =
      matchResource m (Protected (cfg mgr)) f"
  shows "CheckOrAcquire m mgr pid (w1\<lparr>clock := t\<rparr>) f a nm opn = ((r, None), w1\<lparr>clock := t\<rparr>)"
proof (cases "matchProtected m (Protected (cfg mgr)) f")
  case None
  then have "Check m mgr v f = (None, False)" for v
    by (simp add: Check_def)
  with first show ?thesis
    by (simp add: CheckOrAcquire_def)
next
  case (Some mp)
  note check = Check_find [OF Some]
  show ?thesis
  proof (cases "find (covers m mp f) (ListLocks w)")
    case (Some l)
    with first check [of w] have "AgentID l = a \<and> r = Some l \<and> w1 = w"
      by (auto simp: CheckOrAcquire_def split: if_splits)
    with Some check [of w] show ?thesis
      by (simp add: CheckOrAcquire_def Check_clock)
  next
    case None
    let ?res = "matchResource m (Protected (cfg mgr)) f"
    from first check [of w] None obtain k l where
      acq: "Acquire [] mgr pid w ?res a nm opn 0 = (None, w1, k)"
      and rd: "Read w1 ?res = Inr l" and r: "r = Some l"
      by (auto simp: CheckOrAcquire_def Let_def split: prod.splits option.splits sum.splits)
    from Acquire_alone_success [OF acq] owner resource obtain lock where
      lock: "Resource lock = ?res" "AgentID lock = a"
      and entries: "set (locks w1) = insert (lockPath ?res, Parsed lock)
        (set (filter (\<lambda>(n, c). n \<noteq> lockPath ?res) (locks w)))"
      and stored: "map_of (locks w1) (lockPath ?res) = Some (Parsed lock)"
      by auto
    from rd stored have l: "l = lock"
      by (simp add: Read_Inr)
    have listed: "lock \<in> set (ListLocks w1)"
      using entries HasSuffix_lockPath [of ?res] by (auto simp: ListLocks_def set_ListEntries)
    have matches: "covers m mp f lock"
      using matchResource_matches [OF Some] lock by (simp add: covers_def)
    have others: "\<not> covers m mp f l'" if "l' \<in> set (ListLocks w1)" and "l' \<noteq> lock" for l'
    proof -
      from that entries have "l' \<in> set (ListLocks w)"
        by (auto simp: ListLocks_def set_ListEntries)
      with None show ?thesis
        by (simp add: find_None_iff)
    qed
    obtain l' where found: "find (covers m mp f) (ListLocks w1) = Some l'"
      using listed matches by (cases "find (covers m mp f) (ListLocks w1)") (auto simp: find_None_iff)
    then have "l' \<in> set (ListLocks w1)" "covers m mp f l'"
      by (auto simp: find_Some_iff)
    with others have "l' = lock"
      by blast
    with found check [of w1] lock r l show ?thesis
      by (simp add: CheckOrAcquire_def Check_clock)
  qed
qed

text \<open>
  C7, as the code has it. Let a listed lock of the caller be on the pattern the file
  resolves to, and let no listed lock of another agent cover the file (be on that
  pattern, or have a resource that matches the file): then \<open>CheckOrAcquire\<close> returns,
  without error and with the store as it was, a listed lock of the caller that covers
  the file, and it is that lock when no other listed lock covers the file. And when a
  call of \<open>CheckOrAcquire\<close> succeeds, for a caller and a resource whose names read back
  from JSON as they are (valid UTF-8), the same call made again, at any later time,
  succeeds as well, returns the same lock and leaves the store as the first call left
  it, so that no second lock record appears.
\<close>

theorem CheckOrAcquire_idempotent:
  "(matchProtected m (Protected (cfg mgr)) filePath = Some mp \<and>
    l \<in> set (ListLocks w) \<and> Resource l = mp \<and> AgentID l = agentID \<and>
    (\<forall>l' \<in> set (ListLocks w). covers m mp filePath l' \<longrightarrow> AgentID l' = agentID) \<longrightarrow>
      (\<exists>l'. CheckOrAcquire m mgr pid w filePath agentID agentName operation =
               ((Some l', None), w) \<and>
             l' \<in> set (ListLocks w) \<and> AgentID l' = agentID \<and> covers m mp filePath l' \<and>
             ((\<forall>l'' \<in> set (ListLocks w). l'' \<noteq> l \<longrightarrow> \<not> covers m mp filePath l'') \<longrightarrow>
                l' = l))) \<and>
   (CheckOrAcquire m mgr pid w filePath agentID agentName operation = ((r, None), w1) \<and>
    jsonString agentID = agentID \<and>
    jsonString (matchResource m (Protected (cfg mgr)) filePath) =
      matchResource m (Protected (cfg mgr)) filePath \<longrightarrow>
      CheckOrAcquire m mgr pid (w1\<lparr>clock := t\<rparr>) filePath agentID agentName operation =
        ((r, None), w1\<lparr>clock := t\<rparr>))"
proof (intro conjI impI)
  assume held: "matchProtected m (Protected (cfg mgr)) filePath = Some mp \<and>
    l \<in> set (ListLocks w) \<and> Resource l = mp \<and> AgentID l = agentID \<and>
    (\<forall>l' \<in> set (ListLocks w). covers m mp filePath l' \<longrightarrow> AgentID l' = agentID)"
  then have "covers m mp filePath l"
    by (simp add: covers_def)
  with held show "\<exists>l'. CheckOrAcquire m mgr pid w filePath agentID agentName operation =
               ((Some l', None), w) \<and>
             l' \<in> set (ListLocks w) \<and> AgentID l' = agentID \<and> covers m mp filePath l' \<and>
             ((\<forall>l'' \<in> set (ListLocks w). l'' \<noteq> l \<longrightarrow> \<not> covers m mp filePath l'') \<longrightarrow>
                l' = l)"
    by (intro CheckOrAcquire_own) simp_all
next
  assume "CheckOrAcquire m mgr pid w filePath agentID agentName operation = ((r, None), w1) \<and>
    jsonString agentID = agentID \<and>
    jsonString (matchResource m (Protected (cfg mgr)) filePath) =
      matchResource m (Protected (cfg mgr)) filePath"
  then have first: "CheckOrAcquire m mgr pid w filePath agentID agentName operation =
      ((r, None), w1)"
    and owner: "jsonString agentID = agentID"
    and resource: "jsonString (matchResource m (Protected (cfg mgr)) filePath) =
      matchResource m (Protected (cfg mgr)) filePath"
    by simp_all
  show "CheckOrAcquire m mgr pid (w1\<lparr>clock := t\<rparr>) filePath agentID agentName
      operation = ((r, None), w1\<lparr>clock := t\<rparr>)"
    by (rule CheckOrAcquire_again [OF first owner resource])
qed

theorem CheckOrAcquire_idempotent_witness:
  "matchProtected globMatch (Protected (cfg (managerOf [''db/**/*''])))
     ''db/schema/users.sql'' = Some ''db/**/*'' \<and>
   locks world_db_held = [(''db-__-_.lock'', Parsed (lockOf ''db/**/*'' ''A'' 0 300 7))] \<and>
   ListLocks world_db_held = [lockOf ''db/**/*'' ''A'' 0 300 7] \<and>
   Resource (lockOf ''db/**/*'' ''A'' 0 300 7) = ''db/**/*'' \<and>
   AgentID (lockOf ''db/**/*'' ''A'' 0 300 7) = ''A'' \<and>
   CheckOrAcquire globMatch (managerOf [''db/**/*'']) 7 world_db_held ''db/schema/users.sql''
       ''A'' [] [] =
     ((Some (lockOf ''db/**/*'' ''A'' 0 300 7), None), world_db_held) \<and>
   CheckOrAcquire globMatch (managerOf [''db/**/*'']) 7 emptyWorld ''db/schema/users.sql''
       ''A'' [] [] =
     ((Some (lockOf ''db/**/*'' ''A'' 0 300 7), None), world_db_held) \<and>
   jsonString ''A'' = ''A'' \<and>
   jsonString (matchResource globMatch (Protected (cfg (managerOf [''db/**/*''])))
     ''db/schema/users.sql'') =
     matchResource globMatch (Protected (cfg (managerOf [''db/**/*'']))) ''db/schema/users.sql'' \<and>
   CheckOrAcquire globMatch (managerOf [''db/**/*'']) 7 (world_db_held\<lparr>clock := 5 * Second\<rparr>)
       ''db/schema/users.sql'' ''A'' [] [] =
     ((Some (lockOf ''db/**/*'' ''A'' 0 300 7), None), world_db_held\<lparr>clock := 5 * Second\<rparr>)"
proof -
  let ?mgr = "managerOf [''db/**/*'']"
  let ?l = "lockOf ''db/**/*'' ''A'' 0 300 7"
  have resolved: "matchProtected globMatch (Protected (cfg ?mgr)) ''db/schema/users.sql'' =
      Some ''db/**/*''"
    by (simp add: base_defs globMatch_def)
  have first: "CheckOrAcquire globMatch ?mgr 7 emptyWorld ''db/schema/users.sql'' ''A'' [] [] =
      ((Some ?l, None), world_db_held)"
    by (simp add: base_defs store_defs check_defs world_db_held_def)
  have stored: "locks world_db_held = [(''db-__-_.lock'', Parsed ?l)]"
    by (simp add: base_defs store_defs check_defs world_db_held_def)
  have listing: "ListLocks world_db_held = [?l]"
    by (simp add: stored ListLocks_def HasSuffix_def)
  have fields: "Resource ?l = ''db/**/*''" "AgentID ?l = ''A''"
    by (simp_all add: lockOf_def)
  have owner: "jsonString ''A'' = ''A''"
    by (simp add: jsonString_def)
  have resource: "jsonString (matchResource globMatch (Protected (cfg ?mgr))
      ''db/schema/users.sql'') =
      matchResource globMatch (Protected (cfg ?mgr)) ''db/schema/users.sql''"
    by (simp add: base_defs globMatch_def jsonString_def)
  note inst = CheckOrAcquire_idempotent [where m = globMatch and mgr = ?mgr and pid = 7
      and filePath = "''db/schema/users.sql''" and agentID = "''A''" and agentName = "[]"
      and operation = "[]"]
  from inst [where w = world_db_held and mp = "''db/**/*''" and l = ?l]
    resolved listing fields
  have own: "CheckOrAcquire globMatch ?mgr 7 world_db_held ''db/schema/users.sql'' ''A'' [] [] =
      ((Some ?l, None), world_db_held)"
    by auto
  from inst [where w = emptyWorld and r = "Some ?l" and ?w1.0 = world_db_held
      and t = "5 * Second"] first owner resource
  have again: "CheckOrAcquire globMatch ?mgr 7 (world_db_held\<lparr>clock := 5 * Second\<rparr>)
      ''db/schema/users.sql'' ''A'' [] [] =
      ((Some ?l, None), world_db_held\<lparr>clock := 5 * Second\<rparr>)"
    by blast
  from resolved stored listing fields own first owner resource again show ?thesis
    by simp
qed

text \<open>
  The matched pattern \<open>db/**/*\<close> is locked by \<open>A\<close>, but the lock of \<open>B\<close> on
  \<open>**/*.sql\<close> comes first in the directory and matches the file too: the call of \<open>A\<close>
  fails with the conflict.
\<close>

theorem own_lock_hidden_counterexample:
  "matchProtected globMatch (Protected (cfg (managerOf [''db/**/*'', ''**/*.sql''])))
     ''db/schema/users.sql'' = Some ''db/**/*'' \<and>
   ListLocks world_two_owners =
     [lockOf ''**/*.sql'' ''B'' 0 300 8, lockOf ''db/**/*'' ''A'' 0 300 7] \<and>
   Read world_two_owners ''db/**/*'' = Inr (lockOf ''db/**/*'' ''A'' 0 300 7) \<and>
   AgentID (lockOf ''db/**/*'' ''A'' 0 300 7) = ''A'' \<and>
   CheckOrAcquire globMatch (managerOf [''db/**/*'', ''**/*.sql'']) 7 world_two_owners
       ''db/schema/users.sql'' ''A'' [] [] =
     ((Some (lockOf ''**/*.sql'' ''B'' 0 300 8), Some (ResourceLocked ''B'' [])),
      world_two_owners)"
  by (simp add: base_defs store_defs check_defs world_two_owners_def)

text \<open>
  An agent whose identifier is the byte \<open>0xFF\<close> calls \<open>CheckOrAcquire\<close> twice. The
  first call acquires the lock, and the record's owner reads back as the replacement
  character U+FFFD; the second call finds that lock, takes it for another agent's and
  fails with the conflict.
\<close>

lemma invalid_owner_second_call:
  "CheckOrAcquire globMatch (managerOf [''db/**/*'']) 7 emptyWorld ''db/schema/users.sql''
       [CHR 0xFF] [] [] =
     ((Some (lockOf ''db/**/*'' [CHR 0xEF, CHR 0xBF, CHR 0xBD] 0 300 7), None),
      world_db_held_ff) \<and>
   CheckOrAcquire globMatch (managerOf [''db/**/*'']) 7 world_db_held_ff ''db/schema/users.sql''
       [CHR 0xFF] [] [] =
     ((Some (lockOf ''db/**/*'' [CHR 0xEF, CHR 0xBF, CHR 0xBD] 0 300 7),
       Some (ResourceLocked [CHR 0xEF, CHR 0xBF, CHR 0xBD] [])),
      world_db_held_ff)"
  by (simp add: base_defs store_defs check_defs world_db_held_ff_def)

section \<open>ReleaseAll\<close>

lemma Release_result:
  "Release w resource a =
     (case nameError (lockPath resource) of
        Some err \<Rightarrow> (Some err, w)
      | None \<Rightarrow>
          (case map_of (locks w) (lockPath resource) of
             None \<Rightarrow> (None, w)
           | Some Corrupt \<Rightarrow> (Some Unreadable, w)
           | Some (Parsed l) \<Rightarrow>
               if AgentID l = a
               then (None, w\<lparr>locks := filter (\<lambda>(n, c). n \<noteq> lockPath resource) (locks w)\<rparr>)
               else (Some (OwnedByOther (AgentID l)), w)))"
  using nameError_cases [of "lockPath resource"]
  by (auto simp: Release_def Read_def Remove_def split: option.splits content.splits)





text \<open>
  \<open>Acquire\<close> writes the record of a resource whose name reads back from JSON as it is
  (valid UTF-8) into the lock file of that resource; for such resources \<open>Acquire\<close>,
  and \<open>Release\<close> always, keep a directory in which every record lies in the lock file
  of the resource it names.
\<close>

lemma distinct_insertEntry:
  "distinct (map fst (insertEntry n c es)) \<longleftrightarrow> n \<notin> fst ` set es \<and> distinct (map fst es)"
  by (induction n c es rule: insertEntry.induct) (auto simp: set_insertEntry)

lemma fst_written:
  "map fst (map (\<lambda>(n, c). if n = path then (n, Parsed lock) else (n, c)) es) = map fst es"
  by (induction es) auto

lemma Acquire_alone_store:
  "locks (fst (snd (Acquire [] mgr pid w resource agentID agentName operation ttl))) = locks w \<or>
   (\<exists>lock. Resource lock = jsonString resource \<and> nameError (lockPath resource) = None \<and>
      locks (fst (snd (Acquire [] mgr pid w resource agentID agentName operation ttl))) =
        map (\<lambda>(n, c). if n = lockPath resource then (n, Parsed lock) else (n, c))
          (insertEntry (lockPath resource) Corrupt
             (filter (\<lambda>(n, c). n \<noteq> lockPath resource) (locks w))))"
proof -
  let ?lock = "\<lambda>t. jsonLock \<lparr>Resource = resource, AgentID = agentID,
      AgentName = agentName, Operation = operation, AcquiredAt = clock w,
      TTLSeconds = t, PID = pid\<rparr>"
  let ?rest = "filter (\<lambda>(n, c). n \<noteq> lockPath resource) (locks w)"
  have named: "Resource (?lock t) = jsonString resource" for t
    by (simp add: jsonLock_def)
  show ?thesis
  proof (cases rule: Acquire_cases [where resource = resource and w = w and mgr = mgr])
    case (refused err)
    then show ?thesis by (simp add: Acquire_refused)
  next
    case free
    then have "locks (fst (snd (Acquire [] mgr pid w resource agentID agentName operation ttl))) =
        map (\<lambda>(n, c). if n = lockPath resource
                       then (n, Parsed (?lock (if ttl = 0 then DefaultTTL (Settings (cfg mgr))
                                               else ttl)))
                       else (n, c))
          (insertEntry (lockPath resource) Corrupt ?rest)"
      by (simp only: Acquire_free WriteLock_def filter_absent) simp
    with free(1) named show ?thesis
      by blast
  next
    case unreadable
    then show ?thesis by (simp add: Acquire_failed)
  next
    case (held existing)
    then show ?thesis by (simp add: Acquire_conflict)
  next
    case (stale existing)
    have valid: "nameError (lockPath resource) = None"
      using stale(1) by (simp add: Read_Inr)
    have "map_of (locks (w\<lparr>locks := ?rest\<rparr>)) (lockPath resource) = None"
      by (simp add: map_of_removed)
    with valid
    have "locks (fst (snd (Acquire [] mgr pid w resource agentID agentName operation ttl))) =
        map (\<lambda>(n, c). if n = lockPath resource
                       then (n, Parsed (?lock (if ttl = 0 then DefaultTTL (Settings (cfg mgr))
                                               else ttl)))
                       else (n, c))
          (insertEntry (lockPath resource) Corrupt ?rest)"
      by (simp add: Acquire_stale [OF stale] interfere_def Acquire_free WriteLock_def)
    with valid named show ?thesis
      by blast
  qed
qed

lemma Acquire_keeps_store:
  assumes "directory w" and "wellPlaced w" and "jsonString resource = resource"
  shows "directory (fst (snd (Acquire [] mgr pid w resource agentID agentName operation ttl))) \<and>
         wellPlaced (fst (snd (Acquire [] mgr pid w resource agentID agentName operation ttl)))"
proof -
  let ?w1 = "fst (snd (Acquire [] mgr pid w resource agentID agentName operation ttl))"
  let ?rest = "filter (\<lambda>(n, c). n \<noteq> lockPath resource) (locks w)"
  from Acquire_alone_store [of mgr pid w resource agentID agentName operation ttl]
  show ?thesis
  proof
    assume "locks ?w1 = locks w"
    with assms show ?thesis by (simp add: wellPlaced_def directory_def)
  next
    assume "\<exists>lock. Resource lock = jsonString resource \<and> nameError (lockPath resource) = None \<and>
      locks ?w1 =
        map (\<lambda>(n, c). if n = lockPath resource then (n, Parsed lock) else (n, c))
          (insertEntry (lockPath resource) Corrupt ?rest)"
    with assms(3) obtain lock where lock: "Resource lock = resource"
      and valid: "nameError (lockPath resource) = None"
      and w1: "locks ?w1 =
        map (\<lambda>(n, c). if n = lockPath resource then (n, Parsed lock) else (n, c))
          (insertEntry (lockPath resource) Corrupt ?rest)"
      by auto
    have absent: "map_of ?rest (lockPath resource) = None"
      by (rule map_of_removed)
    have entries: "set (locks ?w1) = insert (lockPath resource, Parsed lock) (set ?rest)"
      unfolding w1 using absent by (rule set_put)
    have "distinct (map fst (locks ?w1))"
      unfolding w1 fst_written distinct_insertEntry
      using assms(1) absent by (simp add: directory_def distinct_map_filter map_of_eq_None_iff)
    moreover have "list_all (\<lambda>(n, c). nameError n = None) (locks ?w1)"
      using assms(1) valid unfolding directory_def list_all_iff entries by auto
    moreover have "wellPlaced ?w1"
      using assms(2) lock unfolding wellPlaced_def list_all_iff entries by auto
    ultimately show ?thesis by (simp add: directory_def)
  qed
qed

lemma Release_keeps_store:
  assumes "directory w" and "wellPlaced w"
  shows "directory (snd (Release w resource agentID)) \<and>
         wellPlaced (snd (Release w resource agentID))"
  using assms
  by (auto simp: Release_result wellPlaced_def directory_def list_all_iff distinct_map_filter
      split: option.splits content.splits)





section \<open>Retries of Acquire\<close>

lemma retries_step:
  "snd (snd (Acquire sched mgr pid w resource agentID agentName operation ttl)) = 0 \<or>
   snd (snd (Acquire sched mgr pid w resource agentID agentName operation ttl)) =
     Suc (snd (snd (Acquire (tl sched) mgr pid
       (interfere sched (w\<lparr>locks := filter (\<lambda>(n, c). n \<noteq> lockPath resource) (locks w)\<rparr>))
       resource agentID agentName operation
       (if ttl = 0 then DefaultTTL (Settings (cfg mgr)) else ttl))))"
proof (cases rule: Acquire_cases [where resource = resource and w = w and mgr = mgr])
  case (refused err)
  then show ?thesis by (simp add: Acquire_refused)
next
  case free
  then show ?thesis by (simp add: Acquire_free)
next
  case unreadable
  then show ?thesis by (simp add: Acquire_failed)
next
  case (held existing)
  then show ?thesis by (simp add: Acquire_conflict)
next
  case (stale existing)
  show ?thesis
    by (simp add: Acquire_stale [OF stale] split: prod.splits)
qed

lemma retries_bound:
  "snd (snd (Acquire sched mgr pid w resource agentID agentName operation ttl)) \<le>
     Suc (length sched)"
proof (induction sched arbitrary: w ttl)
  case Nil
  have "map_of (locks (w\<lparr>locks := filter (\<lambda>(n, c). n \<noteq> lockPath resource) (locks w)\<rparr>))
      (lockPath resource) = None"
    by (simp add: map_of_removed)
  then have "snd (snd (Acquire [] mgr pid
      (w\<lparr>locks := filter (\<lambda>(n, c). n \<noteq> lockPath resource) (locks w)\<rparr>)
      resource agentID agentName operation
      (if ttl = 0 then DefaultTTL (Settings (cfg mgr)) else ttl))) = 0"
    by (cases "nameError (lockPath resource)") (simp_all add: Acquire_free Acquire_refused)
  with retries_step [of "[]" mgr pid w resource agentID agentName operation ttl]
  show ?case by (auto simp: interfere_def)
next
  case (Cons e es)
  from Cons [of "e (w\<lparr>locks := filter (\<lambda>(n, c). n \<noteq> lockPath resource) (locks w)\<rparr>)"
      "if ttl = 0 then DefaultTTL (Settings (cfg mgr)) else ttl"]
    retries_step [of "e # es" mgr pid w resource agentID agentName operation ttl]
  show ?case by (auto simp: interfere_def)
qed

text \<open>
  C4, as the code has it: after removing a stale lock \<open>Acquire\<close> calls itself. Run
  alone (empty schedule), the retry finds the resource free and succeeds: exactly one
  retry, the stale record gone and the new lock in place. When another process has put
  a lock there in between, a lock that is not stale is surfaced as the conflict after
  that one retry, and a lock that is stale in its turn leads to a second retry at
  least. In general the number of retries is at most one more than the number of
  interfering steps.
\<close>

theorem Acquire_retries:
  "snd (snd (Acquire sched mgr pid w resource agentID agentName operation ttl)) \<le>
     Suc (length sched) \<and>
   (Read w resource = Inr existing \<and> IsStale mgr w existing \<longrightarrow>
      Acquire [] mgr pid w resource agentID agentName operation ttl =
        (None,
         WriteLock
           (w\<lparr>locks := insertEntry (lockPath resource) Corrupt
                          (filter (\<lambda>(n, c). n \<noteq> lockPath resource) (locks w))\<rparr>)
           (lockPath resource)
           \<lparr>Resource = resource, AgentID = agentID, AgentName = agentName,
            Operation = operation, AcquiredAt = clock w,
            TTLSeconds = (if ttl = 0 then DefaultTTL (Settings (cfg mgr)) else ttl), PID = pid\<rparr>,
         1)) \<and>
   (Read w resource = Inr existing \<and> IsStale mgr w existing \<and>
    Read (e (w\<lparr>locks := filter (\<lambda>(n, c). n \<noteq> lockPath resource) (locks w)\<rparr>)) resource =
      Inr other \<and>
    \<not> IsStale mgr (e (w\<lparr>locks := filter (\<lambda>(n, c). n \<noteq> lockPath resource) (locks w)\<rparr>)) other \<longrightarrow>
      Acquire (e # es) mgr pid w resource agentID agentName operation ttl =
        (Some (LockedBy resource (AgentID other) (AgentName other) (Operation other)),
         e (w\<lparr>locks := filter (\<lambda>(n, c). n \<noteq> lockPath resource) (locks w)\<rparr>), 1)) \<and>
   (Read w resource = Inr existing \<and> IsStale mgr w existing \<and>
    Read (e (w\<lparr>locks := filter (\<lambda>(n, c). n \<noteq> lockPath resource) (locks w)\<rparr>)) resource =
      Inr other \<and>
    IsStale mgr (e (w\<lparr>locks := filter (\<lambda>(n, c). n \<noteq> lockPath resource) (locks w)\<rparr>)) other \<longrightarrow>
      2 \<le> snd (snd (Acquire (e # es) mgr pid w resource agentID agentName operation ttl)))"
proof (intro conjI impI)
  show "snd (snd (Acquire sched mgr pid w resource agentID agentName operation ttl)) \<le>
      Suc (length sched)"
    by (rule retries_bound)
next
  assume stale: "Read w resource = Inr existing \<and> IsStale mgr w existing"
  let ?v = "w\<lparr>locks := filter (\<lambda>(n, c). n \<noteq> lockPath resource) (locks w)\<rparr>"
  have "map_of (locks ?v) (lockPath resource) = None"
    by (simp add: map_of_removed)
  moreover have "nameError (lockPath resource) = None"
    using stale by (simp add: Read_Inr)
  ultimately show "Acquire [] mgr pid w resource agentID agentName operation ttl =
      (None,
       WriteLock
         (w\<lparr>locks := insertEntry (lockPath resource) Corrupt
                        (filter (\<lambda>(n, c). n \<noteq> lockPath resource) (locks w))\<rparr>)
         (lockPath resource)
         \<lparr>Resource = resource, AgentID = agentID, AgentName = agentName,
          Operation = operation, AcquiredAt = clock w,
          TTLSeconds = (if ttl = 0 then DefaultTTL (Settings (cfg mgr)) else ttl), PID = pid\<rparr>,
       1)"
    using stale by (simp add: Acquire_stale [of w resource existing] Acquire_free interfere_def)
next
  assume collide: "Read w resource = Inr existing \<and> IsStale mgr w existing \<and>
    Read (e (w\<lparr>locks := filter (\<lambda>(n, c). n \<noteq> lockPath resource) (locks w)\<rparr>)) resource =
      Inr other \<and>
    \<not> IsStale mgr (e (w\<lparr>locks := filter (\<lambda>(n, c). n \<noteq> lockPath resource) (locks w)\<rparr>)) other"
  then show "Acquire (e # es) mgr pid w resource agentID agentName operation ttl =
      (Some (LockedBy resource (AgentID other) (AgentName other) (Operation other)),
       e (w\<lparr>locks := filter (\<lambda>(n, c). n \<noteq> lockPath resource) (locks w)\<rparr>), 1)"
    by (simp add: Acquire_stale [of w resource existing] Acquire_conflict interfere_def)
next
  let ?v = "e (w\<lparr>locks := filter (\<lambda>(n, c). n \<noteq> lockPath resource) (locks w)\<rparr>)"
  assume again: "Read w resource = Inr existing \<and> IsStale mgr w existing \<and>
    Read (e (w\<lparr>locks := filter (\<lambda>(n, c). n \<noteq> lockPath resource) (locks w)\<rparr>)) resource =
      Inr other \<and>
    IsStale mgr (e (w\<lparr>locks := filter (\<lambda>(n, c). n \<noteq> lockPath resource) (locks w)\<rparr>)) other"
  then have first: "Read w resource = Inr existing" "IsStale mgr w existing"
    and second: "Read ?v resource = Inr other" "IsStale mgr ?v other"
    by simp_all
  show "2 \<le> snd (snd (Acquire (e # es) mgr pid w resource agentID agentName operation ttl))"
    by (simp add: Acquire_stale [OF first] Acquire_stale [OF second] interfere_def
        split: prod.splits)
qed

theorem Acquire_retries_witness:
  "Read world_ttl1_expired ''r'' = Inr (lockOf ''r'' ''A'' 0 1 7) \<and>
   IsStale (managerOf []) world_ttl1_expired (lockOf ''r'' ''A'' 0 1 7) \<and>
   Acquire [] (managerOf []) 8 world_ttl1_expired ''r'' ''B'' [] [] 300 =
     (None,
      world_ttl1_expired\<lparr>locks := [(''r.lock'', Parsed (lockOf ''r'' ''B'' 2000000000 300 8))]\<rparr>,
      1) \<and>
   Read (thirdAgentHolds world_ttl1_removed) ''r'' = Inr (lockOf ''r'' ''C'' 2000000000 300 9) \<and>
   \<not> IsStale (managerOf []) (thirdAgentHolds world_ttl1_removed)
       (lockOf ''r'' ''C'' 2000000000 300 9) \<and>
   Acquire [thirdAgentHolds] (managerOf []) 8 world_ttl1_expired ''r'' ''B'' [] [] 300 =
     (Some (LockedBy ''r'' ''C'' [] []), thirdAgentHolds world_ttl1_removed, 1) \<and>
   snd (snd (Acquire [thirdAgentHolds] (managerOf []) 8 world_ttl1_expired ''r'' ''B'' [] [] 300))
     \<le> Suc (length [thirdAgentHolds]) \<and>
   Read (thirdAgentExpires world_ttl1_removed) ''r'' = Inr (lockOf ''r'' ''C'' 2000000000 1 9) \<and>
   IsStale (managerOf []) (thirdAgentExpires world_ttl1_removed)
     (lockOf ''r'' ''C'' 2000000000 1 9) \<and>
   2 \<le> snd (snd (Acquire [thirdAgentExpires] (managerOf []) 8 world_ttl1_expired ''r'' ''B''
     [] [] 300))"
proof -
  have held: "Read world_ttl1_expired ''r'' = Inr (lockOf ''r'' ''A'' 0 1 7)"
    by (simp add: base_defs store_defs world_ttl1_def world_ttl1_expired_def
        world_ttl1_removed_def thirdAgentHolds_def)
  have stale: "IsStale (managerOf []) world_ttl1_expired (lockOf ''r'' ''A'' 0 1 7)"
    by (simp add: base_defs store_defs world_ttl1_def world_ttl1_expired_def
        world_ttl1_removed_def thirdAgentHolds_def)
  have taken: "Read (thirdAgentHolds world_ttl1_removed) ''r'' =
      Inr (lockOf ''r'' ''C'' 2000000000 300 9)"
    by (simp add: base_defs store_defs world_ttl1_def world_ttl1_expired_def
        world_ttl1_removed_def thirdAgentHolds_def)
  have live: "\<not> IsStale (managerOf []) (thirdAgentHolds world_ttl1_removed)
      (lockOf ''r'' ''C'' 2000000000 300 9)"
    by (simp add: base_defs store_defs world_ttl1_def world_ttl1_expired_def
        world_ttl1_removed_def thirdAgentHolds_def)
  have put: "WriteLock
      (world_ttl1_expired\<lparr>locks := insertEntry (lockPath ''r'') Corrupt
         (filter (\<lambda>(n, c). n \<noteq> lockPath ''r'') (locks world_ttl1_expired))\<rparr>)
      (lockPath ''r'')
      \<lparr>Resource = ''r'', AgentID = ''B'', AgentName = [], Operation = [],
       AcquiredAt = clock world_ttl1_expired,
       TTLSeconds = (if (300::int) = 0 then DefaultTTL (Settings (cfg (managerOf []))) else 300),
       PID = 8\<rparr> =
      world_ttl1_expired\<lparr>locks := [(''r.lock'', Parsed (lockOf ''r'' ''B'' 2000000000 300 8))]\<rparr>"
    by (simp add: base_defs store_defs world_ttl1_def world_ttl1_expired_def
        world_ttl1_removed_def thirdAgentHolds_def)
  have fields: "AgentID (lockOf ''r'' ''C'' 2000000000 300 9) = ''C''"
    "AgentName (lockOf ''r'' ''C'' 2000000000 300 9) = []"
    "Operation (lockOf ''r'' ''C'' 2000000000 300 9) = []"
    by (simp_all add: lockOf_def)
  note inst = Acquire_retries [where sched = "[thirdAgentHolds]" and mgr = "managerOf []"
      and pid = 8 and w = world_ttl1_expired and resource = "''r''" and agentID = "''B''"
      and agentName = "[]" and operation = "[]" and ttl = 300
      and existing = "lockOf ''r'' ''A'' 0 1 7" and e = thirdAgentHolds and es = "[]"
      and other = "lockOf ''r'' ''C'' 2000000000 300 9"]
  from inst held stale taken live
  have alone: "Acquire [] (managerOf []) 8 world_ttl1_expired ''r'' ''B'' [] [] 300 =
      (None,
       world_ttl1_expired\<lparr>locks := [(''r.lock'', Parsed (lockOf ''r'' ''B'' 2000000000 300 8))]\<rparr>,
       1)"
    unfolding put by blast
  from inst held stale taken live
  have raced: "Acquire [thirdAgentHolds] (managerOf []) 8 world_ttl1_expired ''r'' ''B'' [] [] 300 =
      (Some (LockedBy ''r'' ''C'' [] []), thirdAgentHolds world_ttl1_removed, 1)"
    unfolding world_ttl1_removed_def [symmetric] fields by blast
  from inst have bound: "snd (snd (Acquire [thirdAgentHolds] (managerOf []) 8 world_ttl1_expired
      ''r'' ''B'' [] [] 300)) \<le> Suc (length [thirdAgentHolds])"
    by blast
  have lapsed: "Read (thirdAgentExpires world_ttl1_removed) ''r'' =
      Inr (lockOf ''r'' ''C'' 2000000000 1 9)"
    "IsStale (managerOf []) (thirdAgentExpires world_ttl1_removed)
      (lockOf ''r'' ''C'' 2000000000 1 9)"
    by (simp_all add: base_defs store_defs world_ttl1_def world_ttl1_expired_def
        world_ttl1_removed_def thirdAgentExpires_def)
  note inst' = Acquire_retries [where sched = "[]" and mgr = "managerOf []"
      and pid = 8 and w = world_ttl1_expired and resource = "''r''" and agentID = "''B''"
      and agentName = "[]" and operation = "[]" and ttl = 300
      and existing = "lockOf ''r'' ''A'' 0 1 7" and e = thirdAgentExpires and es = "[]"
      and other = "lockOf ''r'' ''C'' 2000000000 1 9"]
  from inst' held stale lapsed
  have twice: "2 \<le> snd (snd (Acquire [thirdAgentExpires] (managerOf []) 8 world_ttl1_expired
      ''r'' ''B'' [] [] 300))"
    unfolding world_ttl1_removed_def [symmetric] by blast
  from held stale alone taken live raced bound lapsed twice show ?thesis
    by blast
qed

text \<open>
  \<open>B\<close> removes the expired lock of \<open>A\<close>; before its retry runs, \<open>C\<close> has taken \<open>r\<close>
  for one second and two seconds have passed. The retry collides with the lock of \<open>C\<close>,
  reclaims it as well and retries a second time: no conflict is reported, and \<open>B\<close>
  holds the lock after two retries.
\<close>

theorem second_retry_counterexample:
  "Read world_ttl1_expired ''r'' = Inr (lockOf ''r'' ''A'' 0 1 7) \<and>
   IsStale (managerOf []) world_ttl1_expired (lockOf ''r'' ''A'' 0 1 7) \<and>
   Read (thirdAgentExpires world_ttl1_removed) ''r'' = Inr (lockOf ''r'' ''C'' 2000000000 1 9) \<and>
   fst (Acquire [thirdAgentExpires] (managerOf []) 8 world_ttl1_expired ''r'' ''B'' [] [] 300) =
     None \<and>
   snd (snd (Acquire [thirdAgentExpires] (managerOf []) 8 world_ttl1_expired ''r'' ''B'' [] []
     300)) = 2 \<and>
   locks (fst (snd (Acquire [thirdAgentExpires] (managerOf []) 8 world_ttl1_expired ''r'' ''B''
     [] [] 300))) = [(''r.lock'', Parsed (lockOf ''r'' ''B'' 4000000000 300 8))]"
  by (simp add: base_defs store_defs world_ttl1_def world_ttl1_expired_def
      world_ttl1_removed_def thirdAgentExpires_def)

end
